theory Spec2Isabelle
  imports Complex_Main "HOL-Library.Word"
begin

unbundle bit_operations_syntax

section \<open>Data model\<close>

text \<open>
  Machine types of the C++ sources: a byte of a \<open>QByteArray\<close>, \<open>qint64\<close> timestamps
  and the \<open>int\<close> counters that are incremented. Frame rates are C++ \<open>int\<close>s that are
  only stored and compared, never computed with; they are kept as \<open>int\<close>.
\<close>

type_synonym byte = "8 word"
type_synonym qint64 = "64 word"
type_synonym cint = "32 word"

text \<open>\<open>struct ClientEntry\<close> of clientmodel.h, with its default member initialisers.\<close>

record ClientEntry =
  id_e :: string
  status :: string
  alias_e :: string
  configuredFps :: int
  measuredFps :: int
  lastFrameTsMs :: qint64
  framesInWindow :: cint
  windowStartMs :: qint64

definition newClientEntry :: "string \<Rightarrow> string \<Rightarrow> ClientEntry" where
  "newClientEntry cid st =
     \<lparr>id_e = cid, status = st, alias_e = [], configuredFps = 0, measuredFps = 0,
      lastFrameTsMs = 0, framesInWindow = 0, windowStartMs = 0\<rparr>"

text \<open>The roles of \<open>ClientModel::Roles\<close> and the signals the model emits.\<close>

datatype Role = IdRole | StatusRole | AliasRole | ConfiguredFpsRole | MeasuredFpsRole

datatype ModelSignal =
    RowsInserted nat nat
  | RowsRemoved nat nat
  | ModelReset
  | CountChanged nat
  | DataChanged nat Role

text \<open>
  \<open>class ClientModel\<close>: the vector \<open>m_clients\<close>, and the signals emitted so far
  (oldest first), so that "nothing was emitted" is an equation between models.
\<close>

record ClientModel =
  m_clients :: "ClientEntry list"
  emitted_m :: "ModelSignal list"

definition emptyModel :: ClientModel where
  "emptyModel = \<lparr>m_clients = [], emitted_m = []\<rparr>"

section \<open>ClientModel (clientmodel.cpp)\<close>

text \<open>
  \<open>indexOfClient\<close>: the loop \<open>for (i = 0; i < size; ++i) if (at(i).id == id) return i;\<close>
  followed by \<open>return -1\<close>. \<open>indexFrom\<close> is the loop from position \<open>i\<close> on.
\<close>

fun indexFrom :: "ClientEntry list \<Rightarrow> string \<Rightarrow> int \<Rightarrow> int" where
  "indexFrom [] cid i = -1"
| "indexFrom (e # es) cid i = (if id_e e = cid then i else indexFrom es cid (i + 1))"

definition indexOfClient :: "ClientModel \<Rightarrow> string \<Rightarrow> int" where
  "indexOfClient m cid = indexFrom (m_clients m) cid 0"

definition rowCount :: "ClientModel \<Rightarrow> int" where
  "rowCount m = int (length (m_clients m))"

definition addClient :: "ClientModel \<Rightarrow> string \<Rightarrow> string \<Rightarrow> ClientModel" where
  "addClient m cid st =
     (if indexOfClient m cid \<noteq> -1 then m
      else let n = length (m_clients m) in
        m\<lparr>m_clients := m_clients m @ [newClientEntry cid st],
          emitted_m := emitted_m m @ [RowsInserted n n, CountChanged (Suc n)]\<rparr>)"

definition removeAt :: "'a list \<Rightarrow> nat \<Rightarrow> 'a list" where
  "removeAt xs i = take i xs @ drop (Suc i) xs"

definition removeClient :: "ClientModel \<Rightarrow> string \<Rightarrow> ClientModel" where
  "removeClient m cid =
     (let idx = indexOfClient m cid in
      if idx = -1 then m
      else m\<lparr>m_clients := removeAt (m_clients m) (nat idx),
             emitted_m := emitted_m m @ [RowsRemoved (nat idx) (nat idx)]\<rparr>)"

definition clear_m :: "ClientModel \<Rightarrow> ClientModel" where
  "clear_m m = m\<lparr>m_clients := [], emitted_m := emitted_m m @ [ModelReset]\<rparr>"

definition setClientStatus :: "ClientModel \<Rightarrow> string \<Rightarrow> string \<Rightarrow> ClientModel" where
  "setClientStatus m cid st =
     (let idx = indexOfClient m cid in
      if idx = -1 then m
      else if status (m_clients m ! nat idx) = st then m
      else m\<lparr>m_clients := (m_clients m)[nat idx := (m_clients m ! nat idx)\<lparr>status := st\<rparr>],
             emitted_m := emitted_m m @ [DataChanged (nat idx) StatusRole]\<rparr>)"

definition setClientAlias :: "ClientModel \<Rightarrow> string \<Rightarrow> string \<Rightarrow> ClientModel" where
  "setClientAlias m cid a =
     (let idx = indexOfClient m cid in
      if idx = -1 then m
      else if alias_e (m_clients m ! nat idx) = a then m
      else m\<lparr>m_clients := (m_clients m)[nat idx := (m_clients m ! nat idx)\<lparr>alias_e := a\<rparr>],
             emitted_m := emitted_m m @ [DataChanged (nat idx) AliasRole]\<rparr>)"

definition setClientConfiguredFps :: "ClientModel \<Rightarrow> string \<Rightarrow> int \<Rightarrow> ClientModel" where
  "setClientConfiguredFps m cid fps =
     (let idx = indexOfClient m cid in
      if idx = -1 then m
      else if configuredFps (m_clients m ! nat idx) = fps then m
      else m\<lparr>m_clients := (m_clients m)[nat idx := (m_clients m ! nat idx)\<lparr>configuredFps := fps\<rparr>],
             emitted_m := emitted_m m @ [DataChanged (nat idx) ConfiguredFpsRole]\<rparr>)"

definition setClientMeasuredFps :: "ClientModel \<Rightarrow> string \<Rightarrow> int \<Rightarrow> ClientModel" where
  "setClientMeasuredFps m cid fps =
     (let idx = indexOfClient m cid in
      if idx = -1 then m
      else if measuredFps (m_clients m ! nat idx) = fps then m
      else m\<lparr>m_clients := (m_clients m)[nat idx := (m_clients m ! nat idx)\<lparr>measuredFps := fps\<rparr>],
             emitted_m := emitted_m m @ [DataChanged (nat idx) MeasuredFpsRole]\<rparr>)"

text \<open>The accessors by row; out of range they return the empty string or 0.\<close>

definition clientIdAt :: "ClientModel \<Rightarrow> int \<Rightarrow> string" where
  "clientIdAt m i =
     (if i < 0 \<or> i \<ge> int (length (m_clients m)) then [] else id_e (m_clients m ! nat i))"

definition aliasAt :: "ClientModel \<Rightarrow> int \<Rightarrow> string" where
  "aliasAt m i =
     (if i < 0 \<or> i \<ge> int (length (m_clients m)) then []
      else let e = m_clients m ! nat i in
        if alias_e e \<noteq> [] then alias_e e
        else ''client_'' @ take 4 (filter (\<lambda>c. c \<noteq> CHR ''{'' \<and> c \<noteq> CHR ''}'') (id_e e)))"

definition configuredFpsAt :: "ClientModel \<Rightarrow> int \<Rightarrow> int" where
  "configuredFpsAt m i =
     (if i < 0 \<or> i \<ge> int (length (m_clients m)) then 0 else configuredFps (m_clients m ! nat i))"

definition measuredFpsAt :: "ClientModel \<Rightarrow> int \<Rightarrow> int" where
  "measuredFpsAt m i =
     (if i < 0 \<or> i \<ge> int (length (m_clients m)) then 0 else measuredFps (m_clients m ! nat i))"

text \<open>A sequence of calls of the two registry-changing slots of the model.\<close>

datatype ModelOp = AddClient string string | RemoveClient string

fun applyModelOp :: "ClientModel \<Rightarrow> ModelOp \<Rightarrow> ClientModel" where
  "applyModelOp m (AddClient cid st) = addClient m cid st"
| "applyModelOp m (RemoveClient cid) = removeClient m cid"

definition clientIds :: "ClientModel \<Rightarrow> string list" where
  "clientIds m = map id_e (m_clients m)"

text \<open>The position of the first entry carrying an id (used to describe the lookup).\<close>

definition firstPos :: "ClientEntry list \<Rightarrow> string \<Rightarrow> nat" where
  "firstPos es cid = length (takeWhile (\<lambda>e. id_e e \<noteq> cid) es)"

definition entryFor :: "ClientModel \<Rightarrow> string \<Rightarrow> ClientEntry" where
  "entryFor m cid = m_clients m ! firstPos (m_clients m) cid"

section \<open>ClientSession: the wire discriminator (clientsession.cpp)\<close>

text \<open>
  \<open>ClientSession::onBinaryMessageReceived\<close>. The two decoders it calls are library code
  (protobuf's \<open>ParseFromArray\<close> for \<open>ControlMessage\<close> and Qt's
  \<open>QImage::loadFromData(..., "JPEG")\<close>); they are parameters \<open>parseControl\<close> and
  \<open>loadJpeg\<close>, \<open>None\<close> standing for the result \<open>false\<close>. The slot either emits one
  signal or returns early after a warning; it writes no member of the session.
\<close>

datatype 'img SessionSignal =
    ControlMessageReceived string "byte list"
  | FrameReceived string 'img

datatype DropReason = EmptyMessage | ControlParseFailed | ImageDecodeFailed

datatype 'img Handled = Emitted "'img SessionSignal" | Dropped DropReason

definition onBinaryMessageReceived ::
  "(byte list \<Rightarrow> 'msg option) \<Rightarrow> (byte list \<Rightarrow> 'img option) \<Rightarrow> string \<Rightarrow> byte list
     \<Rightarrow> 'img Handled" where
  "onBinaryMessageReceived parseControl loadJpeg m_id message =
     (if message = [] then Dropped EmptyMessage
      else let prefix = hd message in
        if prefix = 0x01 then
          (let payload = drop 1 message in
           case parseControl payload of
             None \<Rightarrow> Dropped ControlParseFailed
           | Some msg \<Rightarrow> Emitted (ControlMessageReceived m_id payload))
        else
          (let payload = (if prefix = 0x00 then drop 1 message else message) in
           case loadJpeg payload of
             None \<Rightarrow> Dropped ImageDecodeFailed
           | Some img \<Rightarrow> Emitted (FrameReceived m_id img)))"

text \<open>
  Stand-ins for the two library decoders, used only to evaluate the slot on concrete
  frames: a parser that accepts every payload, and a loader that accepts a payload that
  begins with the JPEG start-of-image marker \<open>FF D8\<close> (no JPEG loader accepts a payload
  without it, the empty payload in particular) and returns the bytes as the image.
\<close>

definition acceptAll :: "byte list \<Rightarrow> byte list option" where
  "acceptAll payload = Some payload"

definition soiLoader :: "byte list \<Rightarrow> byte list option" where
  "soiLoader payload = (if take 2 payload = [0xFF, 0xD8] then Some payload else None)"

text \<open>\<open>ClientSession::sendControlMessage\<close>: the bytes written to an open socket.\<close>

definition sendControlMessage_s :: "byte list \<Rightarrow> byte list" where
  "sendControlMessage_s serialized = 0x01 # serialized"

section \<open>WebSocketImageClient: the reconnect delay (websocketimageclient.cpp)\<close>

text \<open>
  The delay of the reconnect loop, \<open>std::min(30, 1 << std::min(attempt, 6))\<close>, in seconds.
  \<open>attempt\<close> starts at 0 and is only incremented; a negative shift count is undefined in
  C++ and is not given a meaning here (the theorems assume \<open>0 \<le> attempt\<close>).
\<close>

definition waitSeconds :: "int \<Rightarrow> int" where
  "waitSeconds attempt = min 30 (push_bit (nat (min attempt 6)) 1)"

section \<open>ClientModel: the measurement window (clientmodel.cpp)\<close>

text \<open>
  \<open>std::round\<close>: the nearest integer, halfway cases away from zero. The argument is
  computed by the source in double precision,
  \<open>(double(framesInWindow) * 1000.0) / double(elapsed)\<close>; the model takes the exact
  quotient.
\<close>

definition c_round :: "real \<Rightarrow> int" where
  "c_round x = (if 0 \<le> x then \<lfloor>x + 1 / 2\<rfloor> else \<lceil>x - 1 / 2\<rceil>)"

text \<open>
  The body of \<open>recordFrameReceived\<close> on the entry found (lines 149 to 171), for the
  effective timestamp \<open>ts\<close>. The flag tells whether \<open>dataChanged\<close> is emitted, that is,
  whether a measurement was published. \<open>framesInWindow++\<close> and the \<open>qint64\<close> difference
  wrap around in the model; the comparison with 1000 is signed.
\<close>

definition countFrame :: "ClientEntry \<Rightarrow> qint64 \<Rightarrow> ClientEntry \<times> bool" where
  "countFrame e ts =
     (let e1 = (if windowStartMs e = 0 then e\<lparr>framesInWindow := 0, windowStartMs := ts\<rparr> else e);
          e2 = e1\<lparr>lastFrameTsMs := ts, framesInWindow := framesInWindow e1 + 1\<rparr>;
          elapsed = ts - windowStartMs e2
      in if 1000 \<le> sint elapsed then
           (e2\<lparr>measuredFps :=
                  c_round ((real_of_int (sint (framesInWindow e2)) * 1000) / real_of_int (sint elapsed)),
               framesInWindow := 0, windowStartMs := ts\<rparr>, True)
         else (e2, False))"

text \<open>
  \<open>ClientModel::recordFrameReceived(id, timestampMs)\<close>. \<open>now\<close> is what
  \<open>QDateTime::currentMSecsSinceEpoch()\<close> returns when the slot reads the clock, which it
  does only for \<open>timestampMs == 0\<close>.
\<close>

definition recordFrameReceived :: "ClientModel \<Rightarrow> string \<Rightarrow> qint64 \<Rightarrow> qint64 \<Rightarrow> ClientModel" where
  "recordFrameReceived m cid timestampMs now =
     (let idx = indexOfClient m cid in
      if idx = -1 then m
      else let ts = (if timestampMs = 0 then now else timestampMs);
               (e', published) = countFrame (m_clients m ! nat idx) ts
           in m\<lparr>m_clients := (m_clients m)[nat idx := e'],
                emitted_m := emitted_m m @ (if published then [DataChanged (nat idx) MeasuredFpsRole] else [])\<rparr>)"

section \<open>The Measurement Window as the specification words it\<close>

text \<open>
  The estimator of the specification, section 4.3, on unbounded integers: per session a
  window start and a frame count, the published rate and the last-frame time, and
  whether a first frame has been seen. \<open>round\<close> is rounding to the nearest integer.
\<close>

record Window =
  started :: bool
  window_start :: int
  frames_in_window :: int
  measured_fps :: int
  last_frame :: int

definition initialWindow :: Window where
  "initialWindow = \<lparr>started = False, window_start = 0, frames_in_window = 0,
                     measured_fps = 0, last_frame = 0\<rparr>"

definition spec_frame :: "Window \<Rightarrow> int \<Rightarrow> Window" where
  "spec_frame w t =
     (let w1 = (if \<not> started w then w\<lparr>started := True, window_start := t, frames_in_window := 0\<rparr>
                else w);
          w2 = w1\<lparr>frames_in_window := frames_in_window w1 + 1, last_frame := t\<rparr>
      in if t - window_start w2 \<ge> 1000 then
           w2\<lparr>measured_fps :=
                 round (real_of_int (frames_in_window w2 * 1000) / real_of_int (t - window_start w2)),
              window_start := t, frames_in_window := 0\<rparr>
         else w2)"

text \<open>What a \<open>ClientEntry\<close> says about its window, read as signed integers.\<close>

definition windowOf :: "ClientEntry \<Rightarrow> Window" where
  "windowOf e = \<lparr>started = (windowStartMs e \<noteq> 0), window_start = sint (windowStartMs e),
                  frames_in_window = sint (framesInWindow e), measured_fps = measuredFps e,
                  last_frame = sint (lastFrameTsMs e)\<rparr>"

text \<open>
  Feeding one session a sequence of frames: each element is the \<open>timestampMs\<close> argument
  and the clock reading of that call. The effective timestamp is the one the slot uses.
\<close>

definition effectiveTs :: "qint64 \<times> qint64 \<Rightarrow> qint64" where
  "effectiveTs p = (if fst p = 0 then snd p else fst p)"

definition feedFrames :: "ClientModel \<Rightarrow> string \<Rightarrow> (qint64 \<times> qint64) list \<Rightarrow> ClientModel" where
  "feedFrames m cid ps = foldl (\<lambda>m p. recordFrameReceived m cid (fst p) (snd p)) m ps"

text \<open>Bounds under which the counters of an entry have not wrapped around.\<close>

definition entryOk :: "ClientEntry \<Rightarrow> int \<Rightarrow> bool" where
  "entryOk e n = (0 \<le> sint (framesInWindow e) \<and> sint (framesInWindow e) \<le> n \<and>
                   0 \<le> sint (windowStartMs e))"

section \<open>ImageServerBridge (imageserverbridge.cpp)\<close>

text \<open>\<open>enum EventCode\<close> of eventcodes.h and \<open>enum ConnectionState\<close> of the bridge.\<close>

datatype EventCode =
    ServerStarted | ServerStopped | ServerStartFailed | ServerPortInUse | ServerError
  | ClientConnected | ClientDisconnected | ClientBecameActive | NoClientsAvailable
  | FpsApplied | FpsFailedNoClient | FpsSendError
  | FrameReceived_code | FrameDropped
  | UnknownError

datatype ConnectionState = NoClients | ClientsConnected | ReceivingFrames

text \<open>
  The \<open>QVariantMap\<close> of details that goes with an event: the entries in the order the
  code inserts them.
\<close>

datatype Variant = VString string | VInt int

type_synonym Details = "(string \<times> Variant) list"

text \<open>The control messages the server builds (their encoding is protobuf's).\<close>

datatype ControlMessage = SetFps int | RequestAlias

text \<open>
  What the bridge emits, oldest first: its Qt signals and, as \<open>ControlSent\<close>, a control
  message that \<open>m_server->sendControlToClient\<close> handed to a session.
\<close>

datatype 'img BridgeSignal =
    EventOccurred EventCode Details
  | ActiveClientChanged string
  | CurrentFpsChanged int
  | ConfiguredFpsChanged int
  | NewFrameReady 'img
  | FrameIdChanged cint
  | ConnectionLost
  | ConnectionStateChanged
  | StatusMessageChanged
  | ClientDisconnectedWithAlias string string
  | ActiveClientMeasuredFpsChanged int
  | ControlSent string ControlMessage

text \<open>
  What a slot of the bridge sees of its surroundings while it runs: whether protobuf
  serialises a message (\<open>SerializeToString\<close>), and whether the \<open>WebSocketServer\<close> holds
  a live session with a given id (then \<open>sendControlToClient\<close> returns true).
\<close>

record Env =
  serializes :: "ControlMessage \<Rightarrow> bool"
  hasSession :: "string \<Rightarrow> bool"

text \<open>The members of \<open>ImageServerBridge\<close> that the modelled slots read or write.\<close>

record 'img Bridge =
  m_clientModel :: ClientModel
  m_activeClientId :: string
  m_lastFrame :: "'img option"
  m_frameId :: cint
  m_connectionState :: ConnectionState
  m_statusMessage :: string
  m_currentFps :: int
  m_configuredFps :: int
  m_activeClientMeasuredFps :: int
  emitted_b :: "'img BridgeSignal list"

text \<open>The bridge after its constructor; \<open>fps0\<close> is the frame rate read from the settings.\<close>

definition newBridge :: "int \<Rightarrow> 'img Bridge" where
  "newBridge fps0 =
     \<lparr>m_clientModel = emptyModel, m_activeClientId = [], m_lastFrame = None, m_frameId = 0,
      m_connectionState = NoClients, m_statusMessage = [], m_currentFps = 0,
      m_configuredFps = fps0, m_activeClientMeasuredFps = 0,
      emitted_b = [ConfiguredFpsChanged fps0]\<rparr>"

definition emit :: "'img Bridge \<Rightarrow> 'img BridgeSignal list \<Rightarrow> 'img Bridge" where
  "emit b sigs = b\<lparr>emitted_b := emitted_b b @ sigs\<rparr>"

definition setConnectionState :: "'img Bridge \<Rightarrow> ConnectionState \<Rightarrow> 'img Bridge" where
  "setConnectionState b st =
     (if m_connectionState b = st then b
      else emit (b\<lparr>m_connectionState := st\<rparr>) [ConnectionStateChanged])"

definition setStatusMessage :: "'img Bridge \<Rightarrow> string \<Rightarrow> 'img Bridge" where
  "setStatusMessage b msg =
     (if m_statusMessage b = msg then b
      else emit (b\<lparr>m_statusMessage := msg\<rparr>) [StatusMessageChanged])"

definition setFps :: "Env \<Rightarrow> 'img Bridge \<Rightarrow> int \<Rightarrow> 'img Bridge" where
  "setFps env b fps =
     (if m_activeClientId b = [] then emit b [EventOccurred FpsFailedNoClient []]
      else if \<not> serializes env (SetFps fps) then
        emit b [EventOccurred FpsSendError [(''fps'', VInt fps)]]
      else if \<not> hasSession env (m_activeClientId b) then
        emit b [EventOccurred FpsSendError
                  [(''fps'', VInt fps), (''client'', VString (m_activeClientId b))]]
      else
        (let b1 = emit b [ControlSent (m_activeClientId b) (SetFps fps)];
             b2 = emit (b1\<lparr>m_currentFps := fps\<rparr>) [CurrentFpsChanged fps];
             b3 = b2\<lparr>m_clientModel :=
                       setClientConfiguredFps (m_clientModel b2) (m_activeClientId b2) fps\<rparr>
         in emit b3 [EventOccurred FpsApplied
                       [(''fps'', VInt fps), (''client'', VString (m_activeClientId b))]]))"

definition setActiveClient :: "Env \<Rightarrow> 'img Bridge \<Rightarrow> string \<Rightarrow> 'img Bridge" where
  "setActiveClient env b clientId =
     (if m_activeClientId b = clientId then b
      else
        (let b1 = (if m_activeClientId b \<noteq> [] then
                     b\<lparr>m_clientModel :=
                         setClientStatus (m_clientModel b) (m_activeClientId b) ''Connected''\<rparr>
                   else b);
             previousClient = m_activeClientId b1;
             b2 = b1\<lparr>m_activeClientId := clientId\<rparr>;
             b3 = b2\<lparr>m_clientModel :=
                       setClientStatus (m_clientModel b2) (m_activeClientId b2) ''Active''\<rparr>;
             b4 = setFps env b3 (m_configuredFps b3);
             alias = aliasAt (m_clientModel b4) (indexOfClient (m_clientModel b4) clientId)
         in emit b4
              [EventOccurred ClientBecameActive
                 [(''clientId'', VString clientId),
                  (''alias'', VString (if alias = [] then clientId else alias)),
                  (''previousClient'', VString previousClient)],
               ActiveClientChanged clientId]))"

definition onClientConnected :: "Env \<Rightarrow> 'img Bridge \<Rightarrow> string \<Rightarrow> 'img Bridge" where
  "onClientConnected env b clientId =
     (let b1 = b\<lparr>m_clientModel := addClient (m_clientModel b) clientId ''Connected''\<rparr>;
          b2 = (if rowCount (m_clientModel b1) > 0 then
                  setStatusMessage (setConnectionState b1 ClientsConnected) ''Clients connected''
                else b1);
          b3 = (if m_activeClientId b2 = [] then setActiveClient env b2 clientId else b2);
          idx = indexOfClient (m_clientModel b3) clientId
      in if m_configuredFps b3 > 0 \<and> m_activeClientId b3 = clientId then
           setFps env b3 (m_configuredFps b3)
         else if idx \<ge> 0 then
           (let configured = configuredFpsAt (m_clientModel b3) idx
            in if configured > 0 \<and> m_activeClientId b3 = clientId then setFps env b3 configured
               else b3)
         else b3)"

definition onSessionDisconnected :: "Env \<Rightarrow> 'img Bridge \<Rightarrow> string \<Rightarrow> 'img Bridge" where
  "onSessionDisconnected env b clientId =
     (let idx = indexOfClient (m_clientModel b) clientId;
          alias = (if idx \<ge> 0 then aliasAt (m_clientModel b) idx else []);
          b1 = b\<lparr>m_clientModel := removeClient (m_clientModel b) clientId\<rparr>;
          shown = (if alias = [] then clientId else alias);
          b2 = emit b1
                 [EventOccurred ClientDisconnected
                    [(''clientId'', VString clientId), (''alias'', VString shown)],
                  ClientDisconnectedWithAlias clientId shown]
      in if rowCount (m_clientModel b2) = 0 then
           (let b3 = b2\<lparr>m_activeClientId := []\<rparr>;
                b4 = setStatusMessage (setConnectionState b3 NoClients) ''No clients available''
            in emit b4 [EventOccurred NoClientsAvailable [], ConnectionLost])
         else if m_activeClientId b2 = clientId then
           setActiveClient env b2 (clientIdAt (m_clientModel b2) 0)
         else if m_activeClientId b2 = [] \<and> rowCount (m_clientModel b2) = 1 then
           setActiveClient env b2 (clientIdAt (m_clientModel b2) 0)
         else b2)"

text \<open>
  \<open>onFrameReceived(clientId, frame)\<close>. \<open>now\<close> is the clock reading of line 350, and
  \<open>now2\<close> the one \<open>ClientModel::recordFrameReceived\<close> would take if \<open>now\<close> were 0.
  \<open>m_frameId++\<close> wraps around in the model.
\<close>

definition onFrameReceived ::
  "'img Bridge \<Rightarrow> string \<Rightarrow> 'img \<Rightarrow> qint64 \<Rightarrow> qint64 \<Rightarrow> 'img Bridge" where
  "onFrameReceived b clientId frame now now2 =
     (let b1 = b\<lparr>m_clientModel := recordFrameReceived (m_clientModel b) clientId now now2\<rparr>
      in if clientId \<noteq> m_activeClientId b1 then b1
         else
           (let b2 = setStatusMessage (setConnectionState b1 ReceivingFrames) ''Receiving frames'';
                b3 = b2\<lparr>m_lastFrame := Some frame, m_frameId := m_frameId b2 + 1\<rparr>;
                b4 = emit b3 [FrameIdChanged (m_frameId b3)];
                idx = indexOfClient (m_clientModel b4) clientId;
                b5 = (if idx \<ge> 0 then
                        (let measured = measuredFpsAt (m_clientModel b4) idx
                         in if measured \<noteq> m_activeClientMeasuredFps b4 then
                              emit (b4\<lparr>m_activeClientMeasuredFps := measured\<rparr>)
                                [ActiveClientMeasuredFpsChanged measured]
                            else b4)
                      else b4)
            in emit b5 [NewFrameReady frame]))"

text \<open>Sequences of admissions and removals, each with the surroundings it runs in.\<close>

datatype RegistryOp = Admit Env string | Remove Env string

fun applyRegistryOp :: "'img Bridge \<Rightarrow> RegistryOp \<Rightarrow> 'img Bridge" where
  "applyRegistryOp b (Admit env cid) = onClientConnected env b cid"
| "applyRegistryOp b (Remove env cid) = onSessionDisconnected env b cid"

text \<open>The ids of the rows whose status is "Active", in row order.\<close>

definition activeIds :: "ClientModel \<Rightarrow> string list" where
  "activeIds m = map id_e (filter (\<lambda>e. status e = ''Active'') (m_clients m))"

text \<open>
  The invariant of the Active-Client Reference: it is non-empty exactly when the registry
  is; when non-empty it names a row of the registry whose status is "Active"; and the
  rows with status "Active" are that one row, or none when the reference is empty.
\<close>

definition registryInvariant :: "'img Bridge \<Rightarrow> bool" where
  "registryInvariant b =
     (((m_activeClientId b \<noteq> []) = (m_clients (m_clientModel b) \<noteq> [])) \<and>
      (m_activeClientId b \<noteq> [] \<longrightarrow>
         m_activeClientId b \<in> set (clientIds (m_clientModel b)) \<and>
         status (entryFor (m_clientModel b) (m_activeClientId b)) = ''Active'') \<and>
      activeIds (m_clientModel b) = (if m_activeClientId b = [] then [] else [m_activeClientId b]))"

text \<open>Surroundings in which every message serialises and exactly the listed sessions live.\<close>

definition liveSessions :: "string list \<Rightarrow> Env" where
  "liveSessions ids = \<lparr>serializes = (\<lambda>msg. True), hasSession = (\<lambda>cid. cid \<in> set ids)\<rparr>"

text \<open>A bridge with two admitted clients, for evaluating the slots on a concrete state.\<close>

definition exampleBridge :: "unit Bridge" where
  "exampleBridge =
     onClientConnected (liveSessions [''a'', ''b''])
       (onClientConnected (liveSessions [''a'']) (newBridge 30) ''a'') ''b''"

text \<open>
  The registry as the arbitration sees it: the id and the status of every row, and the
  same steps on that view (used to describe what the slots do to it).
\<close>

definition idStatus :: "ClientModel \<Rightarrow> (string \<times> string) list" where
  "idStatus m = map (\<lambda>e. (id_e e, status e)) (m_clients m)"

definition withStatus :: "string \<Rightarrow> string \<Rightarrow> (string \<times> string) list \<Rightarrow> (string \<times> string) list" where
  "withStatus cid st ps = map (\<lambda>p. if fst p = cid then (cid, st) else p) ps"

definition activeOf :: "(string \<times> string) list \<Rightarrow> string list" where
  "activeOf ps = map fst (filter (\<lambda>p. snd p = ''Active'') ps)"

definition arbitrationOk :: "(string \<times> string) list \<Rightarrow> string \<Rightarrow> bool" where
  "arbitrationOk ps a =
     (distinct (map fst ps) \<and> [] \<notin> set (map fst ps) \<and> ((a \<noteq> []) = (ps \<noteq> [])) \<and>
      (a \<noteq> [] \<longrightarrow> a \<in> set (map fst ps)) \<and>
      activeOf ps = (if a = [] then [] else [a]))"

section \<open>WebSocketImageClient: connect and teardown (websocketimageclient.cpp)\<close>

text \<open>
  \<open>struct Impl\<close> and the callbacks of the client: whether the \<open>io_context\<close> and the I/O
  thread object exist (a thread object that exists is joinable), the websocket stream
  (\<open>None\<close> for a null pointer, otherwise whether it is open), the two atomic flags, and
  whether the callbacks are set. \<open>actions\<close> lists what has happened to the client so far,
  oldest first: what the calls of \<open>connectToServer\<close> and \<open>cleanupConnection\<close> did, and
  the exits of reconnect-loop threads.
\<close>

datatype ClientEffect =
    WsClosed
  | IocStopped
  | IoThreadJoined
  | IoThreadStarted
  | WsFreed
  | IocFreed
  | DisconnectedQueued
  | ReconnectLoopStarted
  | ReconnectLoopExited
  | ConnectedCalled
  | AsyncReadStarted

record Impl =
  ioc :: bool
  ioThread :: bool
  ws :: "bool option"
  running :: bool
  reconnecting :: bool
  m_onConnected :: bool
  m_onDisconnected :: bool
  actions :: "ClientEffect list"

text \<open>The client after its constructor, with the given callbacks set or not.\<close>

definition newImpl :: "bool \<Rightarrow> bool \<Rightarrow> Impl" where
  "newImpl onConn onDisc =
     \<lparr>ioc = False, ioThread = False, ws = None, running = False, reconnecting = False,
      m_onConnected = onConn, m_onDisconnected = onDisc, actions = []\<rparr>"

definition did :: "Impl \<Rightarrow> ClientEffect list \<Rightarrow> Impl" where
  "did s es = s\<lparr>actions := actions s @ es\<rparr>"

text \<open>The execution context of a call: the I/O thread itself, or any other thread.\<close>

datatype Context = IoContext | OtherContext

text \<open>
  The tail shared by both paths of \<open>cleanupConnection\<close>: queue the "disconnected"
  callback if one is set, and start the reconnect loop unless the \<open>reconnecting\<close> flag is
  already set (the compare-and-exchange sets it).
\<close>

definition notifyAndReconnect :: "Impl \<Rightarrow> Impl" where
  "notifyAndReconnect s =
     (let s1 = (if m_onDisconnected s then did s [DisconnectedQueued] else s)
      in if \<not> reconnecting s1 then did (s1\<lparr>reconnecting := True\<rparr>) [ReconnectLoopStarted]
         else s1)"

text \<open>
  \<open>ws.reset()\<close> and \<open>ioc.reset()\<close>: the object is freed if the pointer held one.
\<close>

definition resetResources :: "Impl \<Rightarrow> Impl" where
  "resetResources s =
     (let s1 = (if ws s \<noteq> None then did (s\<lparr>ws := None\<rparr>) [WsFreed] else s)
      in if ioc s1 then did (s1\<lparr>ioc := False\<rparr>) [IocFreed] else s1)"

text \<open>
  \<open>cleanupConnection\<close>, called in the given context. The whole routine runs under the
  mutex \<open>m_impl->mtx\<close>, so its calls do not overlap and a state-to-state function
  describes each.
\<close>

definition cleanupConnection :: "Context \<Rightarrow> Impl \<Rightarrow> Impl" where
  "cleanupConnection ctx s =
     (let s1 = s\<lparr>running := False\<rparr>;
          s2 = (if ws s1 = Some True then did (s1\<lparr>ws := Some False\<rparr>) [WsClosed] else s1);
          s3 = (if ioc s2 then did s2 [IocStopped] else s2);
          inIoThread = (ioThread s3 \<and> ctx = IoContext);
          s4 = (if ioThread s3 \<and> \<not> inIoThread then did (s3\<lparr>ioThread := False\<rparr>) [IoThreadJoined]
                else s3)
      in if \<not> inIoThread then notifyAndReconnect (resetResources s4)
         else notifyAndReconnect s4)"

text \<open>
  The end of a reconnect-loop thread (the loop of lines 285 to 299 and 316 to 330): it
  finds \<open>running\<close> set, at its loop test or through \<open>connectToServer\<close> returning true,
  executes \<open>reconnecting.store(false)\<close> and returns. A loop thread exists only while the
  flag is set.
\<close>

definition reconnectLoopExits :: "Impl \<Rightarrow> Impl" where
  "reconnectLoopExits s =
     (if reconnecting s then did (s\<lparr>reconnecting := False\<rparr>) [ReconnectLoopExited] else s)"


text \<open>
  How the connection attempt of \<open>connectToServer\<close> ends: resolving or connecting the
  socket throws; the handshake does not complete within the 5 seconds waited for; the
  handshake completes with an error; the handshake succeeds.
\<close>

datatype Attempt = ConnectThrows | HandshakeTimeout | HandshakeFails | HandshakeSucceeds

text \<open>
  \<open>connectToServer\<close>, called from a thread other than the I/O thread; the result is the new
  state and the value returned. The stream is created closed and is open after a
  successful handshake. \<open>loopExits\<close> tells whether, while the call is between
  \<open>running.store(true)\<close> and the end of the attempt, a reconnect-loop thread ends as
  described above. The loop thread that the cleanup on entry starts does so within its
  first second (it sleeps \<open>waitSeconds 0\<close> and then finds \<open>running\<close> set), so with the 5
  second wait of a handshake timeout this is what happens whenever the flag was clear on
  entry; the flag cannot be cleared that way when the caller is the loop thread itself.
\<close>

definition connectToServer :: "Impl \<Rightarrow> Attempt \<Rightarrow> bool \<Rightarrow> Impl \<times> bool" where
  "connectToServer s attempt loopExits =
     (if running s then (s, True)
      else
        (let s1 = cleanupConnection OtherContext s;
             s2 = s1\<lparr>running := True, ioc := True\<rparr>;
             s3 = (if loopExits then reconnectLoopExits s2 else s2)
         in case attempt of
              ConnectThrows \<Rightarrow> (s3\<lparr>running := False\<rparr>, False)
            | HandshakeTimeout \<Rightarrow>
                (cleanupConnection OtherContext
                   (did (s3\<lparr>ws := Some False, ioThread := True\<rparr>) [IoThreadStarted]), False)
            | HandshakeFails \<Rightarrow>
                (cleanupConnection OtherContext
                   (did (s3\<lparr>ws := Some False, ioThread := True\<rparr>) [IoThreadStarted]), False)
            | HandshakeSucceeds \<Rightarrow>
                (let s4 = did (s3\<lparr>ws := Some True, ioThread := True\<rparr>) [IoThreadStarted];
                     s5 = (if m_onConnected s4 then did s4 [ConnectedCalled] else s4)
                 in (did s5 [AsyncReadStarted], True))))"

text \<open>\<open>disconnectFromServer\<close> is a call of \<open>cleanupConnection\<close>.\<close>

definition disconnectFromServer :: "Impl \<Rightarrow> Impl" where
  "disconnectFromServer s = cleanupConnection OtherContext s"

text \<open>
  Sequences of teardown calls, each in its context, with exits of reconnect-loop threads
  in between; and the number of reconnect loops in progress, started and not yet ended.
\<close>

datatype TeardownStep = Teardown Context | LoopExit

fun teardownStep :: "Impl \<Rightarrow> TeardownStep \<Rightarrow> Impl" where
  "teardownStep s (Teardown ctx) = cleanupConnection ctx s"
| "teardownStep s LoopExit = reconnectLoopExits s"





section \<open>Facts about the lookup loop\<close>

text \<open>The loop returns \<open>firstPos\<close>, the position of the first entry with the id, or -1.\<close>

lemma indexFrom_eq:
  "indexFrom es cid i =
     (if cid \<in> set (map id_e es) then i + int (firstPos es cid) else -1)"
  by (induction es arbitrary: i) (auto simp: firstPos_def)

lemma indexOfClient_eq:
  "indexOfClient m cid =
     (if cid \<in> set (clientIds m) then int (firstPos (m_clients m) cid) else -1)"
  by (simp add: indexOfClient_def indexFrom_eq clientIds_def)

lemma firstPos_less: "cid \<in> set (map id_e es) \<Longrightarrow> firstPos es cid < length es"
  unfolding firstPos_def by (induction es) auto

lemma firstPos_id: "cid \<in> set (map id_e es) \<Longrightarrow> id_e (es ! firstPos es cid) = cid"
  unfolding firstPos_def by (induction es) auto

lemma indexOfClient_absent: "(indexOfClient m cid = -1) = (cid \<notin> set (clientIds m))"
  by (simp add: indexOfClient_eq)

section \<open>Registry ids stay pairwise distinct\<close>

lemma distinct_removeAt: "distinct ys \<Longrightarrow> distinct (removeAt ys i)"
proof (induction ys arbitrary: i)
  case Nil
  then show ?case by (simp add: removeAt_def)
next
  case (Cons a ys)
  show ?case
  proof (cases i)
    case 0
    with Cons.prems show ?thesis by (simp add: removeAt_def)
  next
    case (Suc j)
    from Cons.prems have "distinct (removeAt ys j)" by (simp add: Cons.IH)
    moreover from Cons.prems have "a \<notin> set (removeAt ys j)"
      by (auto simp: removeAt_def dest: in_set_takeD in_set_dropD)
    ultimately show ?thesis using Suc by (simp add: removeAt_def)
  qed
qed

lemma map_removeAt: "map f (removeAt ys i) = removeAt (map f ys) i"
  by (simp add: removeAt_def take_map drop_map)

lemma set_removeAt: "set (removeAt ys i) \<subseteq> set ys"
  unfolding removeAt_def by (auto dest: in_set_takeD in_set_dropD)

lemma clientIds_addClient:
  "clientIds (addClient m cid st) =
     (if cid \<in> set (clientIds m) then clientIds m else clientIds m @ [cid])"
  by (simp add: addClient_def indexOfClient_absent Let_def clientIds_def newClientEntry_def)

lemma clientIds_removeClient:
  "clientIds (removeClient m cid) =
     (if cid \<in> set (clientIds m) then removeAt (clientIds m) (firstPos (m_clients m) cid)
      else clientIds m)"
  by (simp add: removeClient_def indexOfClient_eq Let_def clientIds_def map_removeAt)

lemma distinct_applyModelOp:
  "distinct (clientIds m) \<Longrightarrow> distinct (clientIds (applyModelOp m op))"
  by (cases op) (auto simp: clientIds_addClient clientIds_removeClient distinct_removeAt)

lemma distinct_foldl_ops:
  "distinct (clientIds m) \<Longrightarrow> distinct (clientIds (foldl applyModelOp m ops))"
  by (induction ops arbitrary: m) (simp_all add: distinct_applyModelOp)

text \<open>
  C10. Admitting an id that is already in the registry changes nothing: \<open>addClient\<close>
  returns the model as it was (same rows, same statuses, no signal emitted, so no
  \<open>countChanged\<close>). Hence after any sequence of \<open>addClient\<close> and \<open>removeClient\<close> calls on
  the empty model the ids of the rows are pairwise distinct.
\<close>

theorem addClient_existing_noop_ids_distinct:
  "(cid \<in> set (clientIds m) \<longrightarrow> addClient m cid st = m) \<and>
   distinct (clientIds (foldl applyModelOp emptyModel ops))"
proof
  show "cid \<in> set (clientIds m) \<longrightarrow> addClient m cid st = m"
    by (simp add: addClient_def indexOfClient_absent)
  show "distinct (clientIds (foldl applyModelOp emptyModel ops))"
    by (rule distinct_foldl_ops) (simp add: clientIds_def emptyModel_def)
qed

theorem addClient_existing_noop_witness:
  "''a'' \<in> set (clientIds (addClient emptyModel ''a'' ''Connected'')) \<and>
   addClient (addClient emptyModel ''a'' ''Connected'') ''a'' ''Active''
     = addClient emptyModel ''a'' ''Connected'' \<and>
   distinct (clientIds (foldl applyModelOp emptyModel
     [AddClient ''a'' ''Connected'', AddClient ''b'' ''Connected'', AddClient ''a'' ''Active'',
      RemoveClient ''a'', AddClient ''b'' ''Connected'']))"
  using addClient_existing_noop_ids_distinct
    [of "''a''" "addClient emptyModel ''a'' ''Connected''" "''Active''"
        "[AddClient ''a'' ''Connected'', AddClient ''b'' ''Connected'', AddClient ''a'' ''Active'',
          RemoveClient ''a'', AddClient ''b'' ''Connected'']"]
  by (simp add: clientIds_def addClient_def emptyModel_def indexOfClient_def newClientEntry_def)

section \<open>The reconnect delay\<close>

text \<open>
  C5. The delay before reconnect attempt number \<open>attempt\<close> is
  \<open>min(30, 2^min(attempt, 6))\<close> seconds, a function of the attempt number alone, and the
  attempts 0 to 8 wait 1, 2, 4, 8, 16, 30, 30, 30, 30 seconds.
\<close>

theorem backoff_schedule:
  "(0 \<le> attempt \<longrightarrow> waitSeconds attempt = min 30 (2 ^ nat (min attempt 6))) \<and>
   map waitSeconds [0, 1, 2, 3, 4, 5, 6, 7, 8] = [1, 2, 4, 8, 16, 30, 30, 30, 30]"
  by (simp add: waitSeconds_def push_bit_eq_mult)

theorem backoff_schedule_witness:
  "(0::int) \<le> 7 \<and> waitSeconds 7 = 30"
  using backoff_schedule [of 7] by simp

section \<open>The wire discriminator\<close>

text \<open>
  C6. For a non-empty frame: with first byte 0x01 the remaining bytes go to the control
  parser (and are forwarded as the control payload when it accepts them); with first byte
  0x00 the remaining bytes are the data payload; with any other first byte the whole
  frame, first byte included, is the data payload. A frame whose first byte is not 0x01
  is never shown to the control parser: the outcome is the same whatever parser is used.
\<close>

theorem wire_discriminator:
  "message \<noteq> [] \<Longrightarrow>
   (hd message = 0x01 \<longrightarrow>
      onBinaryMessageReceived parseControl loadJpeg sid message =
        (case parseControl (tl message) of
           None \<Rightarrow> Dropped ControlParseFailed
         | Some (msg::'m) \<Rightarrow> Emitted (ControlMessageReceived sid (tl message)))) \<and>
   (hd message = 0x00 \<longrightarrow>
      onBinaryMessageReceived parseControl loadJpeg sid message =
        (case loadJpeg (tl message) of
           None \<Rightarrow> Dropped ImageDecodeFailed
         | Some (img::'i) \<Rightarrow> Emitted (FrameReceived sid img))) \<and>
   (hd message \<noteq> 0x01 \<and> hd message \<noteq> 0x00 \<longrightarrow>
      onBinaryMessageReceived parseControl loadJpeg sid message =
        (case loadJpeg message of
           None \<Rightarrow> Dropped ImageDecodeFailed
         | Some img \<Rightarrow> Emitted (FrameReceived sid img))) \<and>
   (hd message \<noteq> 0x01 \<longrightarrow>
      (\<forall>parseOther :: byte list \<Rightarrow> 'm option.
         onBinaryMessageReceived parseOther loadJpeg sid message =
         onBinaryMessageReceived parseControl loadJpeg sid message))"
  by (cases message) (auto simp: onBinaryMessageReceived_def split: option.splits)

theorem wire_discriminator_witness:
  "[0x07, 0xFF, 0xD8, 0x01] \<noteq> ([] :: byte list) \<and>
   onBinaryMessageReceived acceptAll soiLoader ''s'' [0x01, 0x08, 0x02]
     = Emitted (ControlMessageReceived ''s'' [0x08, 0x02]) \<and>
   onBinaryMessageReceived acceptAll soiLoader ''s'' [0x00, 0xFF, 0xD8, 0x01]
     = Emitted (FrameReceived ''s'' [0xFF, 0xD8, 0x01]) \<and>
   onBinaryMessageReceived acceptAll soiLoader ''s'' [0xFF, 0xD8, 0x01]
     = Emitted (FrameReceived ''s'' [0xFF, 0xD8, 0x01]) \<and>
   onBinaryMessageReceived (\<lambda>p. None :: byte list option) soiLoader ''s'' [0xFF, 0xD8, 0x01]
     = onBinaryMessageReceived acceptAll soiLoader ''s'' [0xFF, 0xD8, 0x01]"
  using wire_discriminator [of "[0x01, 0x08, 0x02]" acceptAll soiLoader "''s''"]
    wire_discriminator [of "[0x00, 0xFF, 0xD8, 0x01]" acceptAll soiLoader "''s''"]
    wire_discriminator [of "[0xFF, 0xD8, 0x01]" acceptAll soiLoader "''s''"]
  by (auto simp add: acceptAll_def soiLoader_def)

text \<open>
  C7, as stated, fails. The one-byte frame 0x00 is not a control frame, its payload (the
  remaining bytes) is empty, the JPEG loader refuses it and the slot returns without
  emitting anything. The empty frame is dropped too, before any byte is inspected.
\<close>

theorem non_control_frame_dropped:
  "hd [0x00 :: byte] \<noteq> 0x01 \<and>
   onBinaryMessageReceived acceptAll soiLoader ''s'' [0x00] = Dropped ImageDecodeFailed \<and>
   onBinaryMessageReceived acceptAll soiLoader ''s'' [] = Dropped EmptyMessage"
  by (simp add: onBinaryMessageReceived_def soiLoader_def)

text \<open>
  C7, amended. A received frame is discarded exactly when it is empty, or it is a control
  frame (first byte 0x01) whose remaining bytes the control parser refuses, or it is a
  data frame whose payload (the remaining bytes after 0x00, the whole frame otherwise)
  the JPEG loader refuses. Every other frame is emitted as a control message or as a
  frame. The slot changes no state of the session in either case.
\<close>

theorem frame_dropped_iff:
  "(\<exists>r. onBinaryMessageReceived parseControl loadJpeg sid message = Dropped r) =
     (message = [] \<or>
      (message \<noteq> [] \<and> hd message = 0x01 \<and> parseControl (tl message) = None) \<or>
      (message \<noteq> [] \<and> hd message = 0x00 \<and> loadJpeg (tl message) = None) \<or>
      (message \<noteq> [] \<and> hd message \<noteq> 0x01 \<and> hd message \<noteq> 0x00 \<and> loadJpeg message = None))"
  by (cases message) (auto simp: onBinaryMessageReceived_def split: option.splits)

theorem frame_dropped_iff_witness:
  "(\<exists>r. onBinaryMessageReceived (\<lambda>p. None :: byte list option) soiLoader ''s'' [0x01, 0x08]
          = Dropped r) \<and>
   \<not> (\<exists>r. onBinaryMessageReceived acceptAll soiLoader ''s'' [0x01, 0x08] = Dropped r) \<and>
   \<not> (\<exists>r. onBinaryMessageReceived acceptAll soiLoader ''s'' [0xFF, 0xD8, 0x00] = Dropped r) \<and>
   (\<exists>r. onBinaryMessageReceived acceptAll soiLoader ''s'' [0x02, 0xFF, 0xD8] = Dropped r)"
  using frame_dropped_iff [of "\<lambda>p. None :: byte list option" soiLoader "''s''" "[0x01, 0x08]"]
    frame_dropped_iff [of acceptAll soiLoader "''s''" "[0x01, 0x08]"]
    frame_dropped_iff [of acceptAll soiLoader "''s''" "[0xFF, 0xD8, 0x00]"]
    frame_dropped_iff [of acceptAll soiLoader "''s''" "[0x02, 0xFF, 0xD8]"]
  by (simp add: acceptAll_def soiLoader_def)

section \<open>The measurement window refines the specified estimator\<close>

text \<open>Signed readings of the wrapping operations, where they do not wrap.\<close>

lemma sint_diff64:
  fixes a b :: qint64
  assumes "0 \<le> sint a" "0 \<le> sint b"
  shows "sint (a - b) = sint a - sint b"
proof -
  have "sint a < 2 ^ 63" "sint b < 2 ^ 63"
    using sint_lt [of a] sint_lt [of b] by simp_all
  with assms have "- (2 ^ 63) \<le> sint a - sint b" "sint a - sint b < 2 ^ 63" by simp_all
  then show ?thesis
    by (simp add: sint_word_ariths signed_take_bit_int_eq_self)
qed

lemma sint_succ32:
  fixes f :: cint
  assumes "0 \<le> sint f" "sint f < 2 ^ 31 - 1"
  shows "sint (f + 1) = sint f + 1"
  using assms by (simp add: sint_word_ariths signed_take_bit_int_eq_self)

lemma c_round_nonneg: "0 \<le> x \<Longrightarrow> c_round x = round x"
  by (simp add: c_round_def round_def)

lemma countFrame_step:
  assumes t: "0 < sint tw" and ok: "entryOk e n" and n: "n < 2 ^ 31 - 1"
  shows "windowOf (fst (countFrame e tw)) = spec_frame (windowOf e) (sint tw)"
    and "entryOk (fst (countFrame e tw)) (n + 1)"
proof -
  have tw0: "tw \<noteq> 0" using t by auto
  define f1 where "f1 = (if windowStartMs e = 0 then 0 else framesInWindow e)"
  define ws1 where "ws1 = (if windowStartMs e = 0 then tw else windowStartMs e)"
  have f1: "0 \<le> sint f1" "sint f1 \<le> n" using ok t n by (auto simp: f1_def entryOk_def)
  have ws1: "0 \<le> sint ws1" "ws1 \<noteq> 0" using ok t tw0 by (auto simp: ws1_def entryOk_def)
  have f2: "sint (f1 + 1) = sint f1 + 1" using f1 n by (intro sint_succ32) simp_all
  have el: "sint (tw - ws1) = sint tw - sint ws1"
    using sint_diff64 [of tw ws1] ws1 t by simp
  have q: "0 \<le> (real_of_int (sint f1 + 1) * 1000) / real_of_int (sint tw - sint ws1)"
    if "1000 \<le> sint tw - sint ws1"
  proof -
    have "0 \<le> sint f1 + 1" using f1 by linarith
    then have "0 \<le> real_of_int (sint f1 + 1)" by (simp only: of_int_0_le_iff)
    then have "0 \<le> real_of_int (sint f1 + 1) * 1000" by (rule mult_nonneg_nonneg) simp
    moreover have "0 \<le> sint tw - sint ws1" using that by linarith
    then have "0 \<le> real_of_int (sint tw - sint ws1)" by (simp only: of_int_0_le_iff)
    ultimately show ?thesis by (simp only: divide_nonneg_nonneg)
  qed
  have m: "c_round (real_of_int (sint (f1 + 1)) * 1000 / real_of_int (sint (tw - ws1))) =
           round (real_of_int ((sint f1 + 1) * 1000) / real_of_int (sint tw - sint ws1))"
    if "1000 \<le> sint tw - sint ws1"
    unfolding f2 el using q [OF that] by (simp del: of_int_sint add: c_round_nonneg)
  show "windowOf (fst (countFrame e tw)) = spec_frame (windowOf e) (sint tw)"
    using f1 ws1 f2 el tw0 m
    by (auto simp del: of_int_sint simp add: countFrame_def spec_frame_def windowOf_def Let_def
        f1_def ws1_def split: if_splits)
  show "entryOk (fst (countFrame e tw)) (n + 1)"
    using f1 ws1 f2 el tw0 t
    by (auto simp: countFrame_def entryOk_def Let_def f1_def ws1_def split: if_splits)
qed

lemma countFrame_id: "id_e (fst (countFrame e ts)) = id_e e"
  by (simp add: countFrame_def Let_def)

lemma firstPos_update_same_id:
  "i < length es \<Longrightarrow> id_e e' = id_e (es ! i) \<Longrightarrow> firstPos (es[i := e']) cid = firstPos es cid"
  unfolding firstPos_def
  by (induction es arbitrary: i) (auto split: nat.splits)

lemma map_id_update_same_id:
  "i < length es \<Longrightarrow> id_e e' = id_e (es ! i) \<Longrightarrow> map id_e (es[i := e']) = map id_e es"
  by (simp add: map_update list_update_same_conv)

lemma recordFrameReceived_present:
  assumes "cid \<in> set (clientIds m)"
  shows "m_clients (recordFrameReceived m cid timestampMs now) =
           (m_clients m)[firstPos (m_clients m) cid :=
              fst (countFrame (entryFor m cid) (effectiveTs (timestampMs, now)))]"
  using assms
  by (simp add: recordFrameReceived_def indexOfClient_eq Let_def entryFor_def effectiveTs_def
      split: prod.splits)

lemma recordFrameReceived_ids:
  "clientIds (recordFrameReceived m cid timestampMs now) = clientIds m"
proof (cases "cid \<in> set (clientIds m)")
  case True
  then have "firstPos (m_clients m) cid < length (m_clients m)"
    by (simp add: clientIds_def firstPos_less)
  then show ?thesis
    using True
    by (simp add: recordFrameReceived_present clientIds_def map_id_update_same_id countFrame_id
        entryFor_def)
next
  case False
  then show ?thesis by (simp add: recordFrameReceived_def indexOfClient_eq)
qed

lemma recordFrameReceived_entry:
  assumes "cid \<in> set (clientIds m)"
  shows "entryFor (recordFrameReceived m cid timestampMs now) cid =
           fst (countFrame (entryFor m cid) (effectiveTs (timestampMs, now)))"
proof -
  have l: "firstPos (m_clients m) cid < length (m_clients m)"
    using assms by (simp add: clientIds_def firstPos_less)
  have "firstPos (m_clients (recordFrameReceived m cid timestampMs now)) cid
          = firstPos (m_clients m) cid"
    using assms l
    by (simp add: recordFrameReceived_present firstPos_update_same_id countFrame_id entryFor_def)
  then show ?thesis
    using assms l by (simp add: entryFor_def recordFrameReceived_present)
qed

lemma feedFrames_refines:
  assumes "cid \<in> set (clientIds m)" "entryOk (entryFor m cid) n"
    and "n + int (length ps) < 2 ^ 31"
    and "\<forall>p \<in> set ps. 0 < sint (effectiveTs p)"
  shows "windowOf (entryFor (feedFrames m cid ps) cid) =
           foldl spec_frame (windowOf (entryFor m cid)) (map (\<lambda>p. sint (effectiveTs p)) ps)"
  using assms
proof (induction ps arbitrary: m n)
  case Nil
  then show ?case by (simp add: feedFrames_def)
next
  case (Cons p ps)
  let ?m1 = "recordFrameReceived m cid (fst p) (snd p)"
  have t: "0 < sint (effectiveTs p)" using Cons.prems(4) by simp
  have n: "n < 2 ^ 31 - 1" using Cons.prems(3) by simp
  have e1: "entryFor ?m1 cid = fst (countFrame (entryFor m cid) (effectiveTs p))"
    using recordFrameReceived_entry [OF Cons.prems(1), of "fst p" "snd p"] by simp
  have in1: "cid \<in> set (clientIds ?m1)"
    using Cons.prems(1) by (simp add: recordFrameReceived_ids)
  have ok1: "entryOk (entryFor ?m1 cid) (n + 1)"
    unfolding e1 using t Cons.prems(2) n by (rule countFrame_step(2))
  have w1: "windowOf (entryFor ?m1 cid) = spec_frame (windowOf (entryFor m cid)) (sint (effectiveTs p))"
    unfolding e1 using t Cons.prems(2) n by (rule countFrame_step(1))
  have "windowOf (entryFor (feedFrames ?m1 cid ps) cid) =
          foldl spec_frame (windowOf (entryFor ?m1 cid)) (map (\<lambda>p. sint (effectiveTs p)) ps)"
    using in1 ok1 Cons.prems(3,4) by (intro Cons.IH [where n = "n + 1"]) simp_all
  then show ?case by (simp add: feedFrames_def w1)
qed

text \<open>
  C4. Feed one session, whose entry is fresh, any sequence of frames with positive
  effective timestamps (milliseconds since the epoch; fewer than \<open>2^31\<close> frames, so that
  the \<open>int\<close> frame counter cannot wrap). Then the entry's window is what the estimator of
  the specification computes from the same timestamps: the first frame sets the window
  start and zeroes the count before counting; every frame counts and records the
  last-frame time; exactly when \<open>t - window_start \<ge> 1000\<close> the rate
  \<open>round(frames * 1000 / (t - window_start))\<close> is published and the window restarts at
  \<open>t\<close> with count 0; otherwise the published rate is held.
\<close>

theorem measurement_window_refines_spec:
  assumes "cid \<in> set (clientIds m)"
    and "windowOf (entryFor m cid) = initialWindow"
    and "length ps < 2 ^ 31"
    and "\<forall>p \<in> set ps. 0 < sint (effectiveTs p)"
  shows "windowOf (entryFor (feedFrames m cid ps) cid) =
           foldl spec_frame initialWindow (map (\<lambda>p. sint (effectiveTs p)) ps)"
proof -
  have "entryOk (entryFor m cid) 0"
    using assms(2) by (simp add: windowOf_def initialWindow_def entryOk_def)
  moreover have "0 + int (length ps) < 2 ^ 31" using assms(3) by simp
  ultimately show ?thesis
    using feedFrames_refines [OF assms(1), of 0 ps] assms(2,4) by simp
qed


theorem measurement_window_witness:
  "''a'' \<in> set (clientIds (addClient emptyModel ''a'' ''Connected'')) \<and>
   windowOf (entryFor (addClient emptyModel ''a'' ''Connected'') ''a'') = initialWindow \<and>
   length [(1000, 5), (1500, 5), (2000, 5), (0, 2100 :: qint64)] < 2 ^ 31 \<and>
   0 < sint (effectiveTs (1000, 5)) \<and> 0 < sint (effectiveTs (1500, 5)) \<and>
   0 < sint (effectiveTs (2000, 5)) \<and> 0 < sint (effectiveTs (0, 2100)) \<and>
   windowOf (entryFor (feedFrames (addClient emptyModel ''a'' ''Connected'') ''a''
       [(1000, 5), (1500, 5), (2000, 5), (0, 2100)]) ''a'') =
     \<lparr>started = True, window_start = 2000, frames_in_window = 1, measured_fps = 3,
      last_frame = 2100\<rparr>"
proof -
  let ?m = "addClient emptyModel ''a'' ''Connected''"
  let ?ps = "[(1000, 5), (1500, 5), (2000, 5), (0, 2100 :: qint64)]"
  have h1: "''a'' \<in> set (clientIds ?m)"
    by (simp add: clientIds_def addClient_def emptyModel_def indexOfClient_def newClientEntry_def)
  have h2: "windowOf (entryFor ?m ''a'') = initialWindow"
    by (simp add: entryFor_def firstPos_def addClient_def emptyModel_def indexOfClient_def
        newClientEntry_def windowOf_def initialWindow_def)
  have h3: "length ?ps < 2 ^ 31" by simp
  have h4: "\<forall>p \<in> set ?ps. 0 < sint (effectiveTs p)" by (simp add: effectiveTs_def)
  have "foldl spec_frame initialWindow (map (\<lambda>p. sint (effectiveTs p)) ?ps) =
          \<lparr>started = True, window_start = 2000, frames_in_window = 1, measured_fps = 3,
           last_frame = 2100\<rparr>"
    by (simp add: spec_frame_def initialWindow_def effectiveTs_def round_def)
  with measurement_window_refines_spec [OF h1 h2 h3 h4] h1 h2 h3 h4 show ?thesis
    by (simp add: effectiveTs_def)
qed

section \<open>Evaluating the bridge on a concrete state\<close>

lemmas bridge_defs =
  onClientConnected_def onSessionDisconnected_def setActiveClient_def setFps_def
  setStatusMessage_def setConnectionState_def emit_def newBridge_def liveSessions_def
  addClient_def removeClient_def removeAt_def setClientStatus_def setClientConfiguredFps_def
  indexOfClient_def rowCount_def clientIdAt_def aliasAt_def configuredFpsAt_def
  emptyModel_def newClientEntry_def

lemma exampleBridge_value:
  "exampleBridge =
     \<lparr>m_clientModel =
        \<lparr>m_clients =
           [\<lparr>id_e = ''a'', status = ''Active'', alias_e = [], configuredFps = 30, measuredFps = 0,
              lastFrameTsMs = 0, framesInWindow = 0, windowStartMs = 0\<rparr>,
            \<lparr>id_e = ''b'', status = ''Connected'', alias_e = [], configuredFps = 0, measuredFps = 0,
              lastFrameTsMs = 0, framesInWindow = 0, windowStartMs = 0\<rparr>],
         emitted_m =
           [RowsInserted 0 0, CountChanged 1, DataChanged 0 StatusRole,
            DataChanged 0 ConfiguredFpsRole, RowsInserted 1 1, CountChanged 2]\<rparr>,
      m_activeClientId = ''a'', m_lastFrame = None, m_frameId = 0,
      m_connectionState = ClientsConnected, m_statusMessage = ''Clients connected'',
      m_currentFps = 30, m_configuredFps = 30, m_activeClientMeasuredFps = 0,
      emitted_b =
        [ConfiguredFpsChanged 30, ConnectionStateChanged, StatusMessageChanged,
         ControlSent ''a'' (SetFps 30), CurrentFpsChanged 30,
         EventOccurred FpsApplied [(''fps'', VInt 30), (''client'', VString ''a'')],
         EventOccurred ClientBecameActive
           [(''clientId'', VString ''a''), (''alias'', VString ''client_a''),
            (''previousClient'', VString [])],
         ActiveClientChanged ''a'',
         ControlSent ''a'' (SetFps 30), CurrentFpsChanged 30,
         EventOccurred FpsApplied [(''fps'', VInt 30), (''client'', VString ''a'')]]\<rparr>"
  by (simp add: exampleBridge_def bridge_defs)

section \<open>Data frames: measured always, forwarded from the active session only\<close>

lemma countFrame_last: "lastFrameTsMs (fst (countFrame e ts)) = ts"
  by (simp add: countFrame_def Let_def)

text \<open>What \<open>countFrame\<close> leaves in each field of the entry.\<close>

lemma countFrame_fields:
  "id_e (fst (countFrame e ts)) = id_e e"
  "status (fst (countFrame e ts)) = status e"
  "alias_e (fst (countFrame e ts)) = alias_e e"
  "configuredFps (fst (countFrame e ts)) = configuredFps e"
  "windowStartMs (fst (countFrame e ts)) =
     (if 1000 \<le> sint (ts - (if windowStartMs e = 0 then ts else windowStartMs e)) then ts
      else if windowStartMs e = 0 then ts else windowStartMs e)"
  "framesInWindow (fst (countFrame e ts)) =
     (if 1000 \<le> sint (ts - (if windowStartMs e = 0 then ts else windowStartMs e)) then 0
      else (if windowStartMs e = 0 then 0 else framesInWindow e) + 1)"
  "measuredFps (fst (countFrame e ts)) =
     (if 1000 \<le> sint (ts - (if windowStartMs e = 0 then ts else windowStartMs e)) then
        c_round (real_of_int (sint ((if windowStartMs e = 0 then 0 else framesInWindow e) + 1)) * 1000
                 / real_of_int (sint (ts - (if windowStartMs e = 0 then ts else windowStartMs e))))
      else measuredFps e)"
  by (simp_all add: countFrame_def Let_def)

text \<open>
  C2, as stated, fails in its parenthesis: \<open>m_frameId\<close> is a 32-bit \<open>int\<close>, and a frame
  from the active session that arrives when the counter is \<open>INT_MAX\<close> takes it to
  \<open>INT_MIN\<close>; the counter is not monotonically increasing there.
\<close>

theorem frame_counter_wraps:
  "''a'' \<in> set (clientIds (m_clientModel (exampleBridge\<lparr>m_frameId := 0x7FFFFFFF\<rparr>))) \<and>
   m_activeClientId (exampleBridge\<lparr>m_frameId := 0x7FFFFFFF\<rparr>) = ''a'' \<and>
   sint (m_frameId (exampleBridge\<lparr>m_frameId := 0x7FFFFFFF\<rparr>)) = 2147483647 \<and>
   sint (m_frameId (onFrameReceived (exampleBridge\<lparr>m_frameId := 0x7FFFFFFF\<rparr>) ''a'' () 1000 0))
     = - 2147483648"
  by (simp add: exampleBridge_value clientIds_def onFrameReceived_def Let_def
      setStatusMessage_def setConnectionState_def emit_def)

text \<open>
  C2, amended. For a data frame from a session in the registry, \<open>onFrameReceived\<close> updates
  that session's measurement window whether or not the session is active: the last-frame
  time becomes the frame's timestamp; a window that has not started (start 0) starts at
  the timestamp with count 0; the frame is counted; and if 1000 ms or more have passed
  since the window start the rate is published and the window restarts at the timestamp
  with count 0, otherwise start and count stay as counted and the published rate is
  held. The rest of the entry and the ids of the registry are unchanged. The frame
  counter \<open>m_frameId\<close>, a 32-bit \<open>int\<close>, becomes \<open>m_frameId + 1\<close> (wrapping around at
  \<open>INT_MAX\<close>) exactly when the sender is the Active-Client Reference, and then the frame
  is cached and \<open>newFrameReady(frame)\<close> is emitted once; otherwise the counter, the cached
  frame and the emitted signals are unchanged. As long as the counter is below
  \<open>INT_MAX\<close> it grows by exactly one with each frame of the active session.
\<close>

theorem onFrameReceived_measures_and_forwards:
  assumes "cid \<in> set (clientIds (m_clientModel b))"
  shows
   "(let e = entryFor (m_clientModel b) cid;
         e' = entryFor (m_clientModel (onFrameReceived b cid frame now now2)) cid;
         ts = effectiveTs (now, now2);
         start = (if windowStartMs e = 0 then ts else windowStartMs e);
         counted = (if windowStartMs e = 0 then 0 else framesInWindow e) + 1
     in lastFrameTsMs e' = ts \<and>
        (if 1000 \<le> sint (ts - start) then
           windowStartMs e' = ts \<and> framesInWindow e' = 0 \<and>
           measuredFps e' =
             c_round (real_of_int (sint counted) * 1000 / real_of_int (sint (ts - start)))
         else
           windowStartMs e' = start \<and> framesInWindow e' = counted \<and>
           measuredFps e' = measuredFps e) \<and>
        id_e e' = cid \<and> status e' = status e \<and> alias_e e' = alias_e e \<and>
        configuredFps e' = configuredFps e) \<and>
    clientIds (m_clientModel (onFrameReceived b cid frame now now2)) =
      clientIds (m_clientModel b) \<and>
    (m_frameId (onFrameReceived b cid frame now now2) = m_frameId b + 1) =
      (cid = m_activeClientId b) \<and>
    (cid \<noteq> m_activeClientId b \<longrightarrow>
       m_frameId (onFrameReceived b cid frame now now2) = m_frameId b \<and>
       m_lastFrame (onFrameReceived b cid frame now now2) = m_lastFrame b \<and>
       emitted_b (onFrameReceived b cid frame now now2) = emitted_b b) \<and>
    (cid = m_activeClientId b \<longrightarrow>
       m_lastFrame (onFrameReceived b cid frame now now2) = Some frame) \<and>
    count_list (emitted_b (onFrameReceived b cid frame now now2)) (NewFrameReady frame) =
      count_list (emitted_b b) (NewFrameReady frame) + (if cid = m_activeClientId b then 1 else 0) \<and>
    (sint (m_frameId b) < 2 ^ 31 - 1 \<longrightarrow>
       sint (m_frameId (onFrameReceived b cid frame now now2)) =
         sint (m_frameId b) + (if cid = m_activeClientId b then 1 else 0))"
proof -
  let ?b' = "onFrameReceived b cid frame now now2"
  let ?e = "entryFor (m_clientModel b) cid"
  have model: "m_clientModel ?b' = recordFrameReceived (m_clientModel b) cid now now2"
    by (simp add: onFrameReceived_def Let_def setStatusMessage_def setConnectionState_def emit_def)
  have entry: "entryFor (m_clientModel ?b') cid =
      fst (countFrame ?e (effectiveTs (now, now2)))"
    unfolding model using assms by (rule recordFrameReceived_entry)
  have ide: "id_e ?e = cid"
    using assms firstPos_id [of cid "m_clients (m_clientModel b)"]
    by (simp add: entryFor_def clientIds_def)
  have window: "(let e = ?e;
         e' = entryFor (m_clientModel ?b') cid;
         ts = effectiveTs (now, now2);
         start = (if windowStartMs e = 0 then ts else windowStartMs e);
         counted = (if windowStartMs e = 0 then 0 else framesInWindow e) + 1
     in lastFrameTsMs e' = ts \<and>
        (if 1000 \<le> sint (ts - start) then
           windowStartMs e' = ts \<and> framesInWindow e' = 0 \<and>
           measuredFps e' =
             c_round (real_of_int (sint counted) * 1000 / real_of_int (sint (ts - start)))
         else
           windowStartMs e' = start \<and> framesInWindow e' = counted \<and>
           measuredFps e' = measuredFps e) \<and>
        id_e e' = cid \<and> status e' = status e \<and> alias_e e' = alias_e e \<and>
        configuredFps e' = configuredFps e)"
    unfolding Let_def entry
    by (simp del: of_int_sint add: countFrame_fields countFrame_last ide)
  have ids: "clientIds (m_clientModel ?b') = clientIds (m_clientModel b)"
    unfolding model by (rule recordFrameReceived_ids)
  have fid: "m_frameId ?b' = (if cid = m_activeClientId b then m_frameId b + 1 else m_frameId b)"
    by (simp add: onFrameReceived_def Let_def setStatusMessage_def setConnectionState_def emit_def)
  have lf: "m_lastFrame ?b' = (if cid = m_activeClientId b then Some frame else m_lastFrame b)"
    by (simp add: onFrameReceived_def Let_def setStatusMessage_def setConnectionState_def emit_def)
  have em: "cid \<noteq> m_activeClientId b \<Longrightarrow> emitted_b ?b' = emitted_b b"
    by (simp add: onFrameReceived_def Let_def)
  have cnt: "count_list (emitted_b ?b') (NewFrameReady frame) =
      count_list (emitted_b b) (NewFrameReady frame) + (if cid = m_activeClientId b then 1 else 0)"
    by (simp add: onFrameReceived_def Let_def setStatusMessage_def setConnectionState_def emit_def)
  have step: "sint (m_frameId ?b') = sint (m_frameId b) + (if cid = m_activeClientId b then 1 else 0)"
    if "sint (m_frameId b) < 2 ^ 31 - 1"
  proof (cases "cid = m_activeClientId b")
    case True
    have "- (2 ^ 31) \<le> sint (m_frameId b)" using sint_ge [of "m_frameId b"] by simp
    with that have "sint (m_frameId b + 1) = sint (m_frameId b) + 1"
      by (simp add: sint_word_ariths signed_take_bit_int_eq_self)
    with True fid show ?thesis by simp
  next
    case False
    then show ?thesis by (simp add: fid)
  qed
  have counter: "(m_frameId ?b' = m_frameId b + 1) = (cid = m_activeClientId b)"
    by (simp add: fid)
  have silent: "cid \<noteq> m_activeClientId b \<longrightarrow>
       m_frameId ?b' = m_frameId b \<and> m_lastFrame ?b' = m_lastFrame b \<and>
       emitted_b ?b' = emitted_b b"
    using em by (simp add: fid lf)
  have cached: "cid = m_activeClientId b \<longrightarrow> m_lastFrame ?b' = Some frame"
  proof
    assume "cid = m_activeClientId b"
    with lf show "m_lastFrame ?b' = Some frame" by simp
  qed
  have grows: "sint (m_frameId b) < 2 ^ 31 - 1 \<longrightarrow>
       sint (m_frameId ?b') = sint (m_frameId b) + (if cid = m_activeClientId b then 1 else 0)"
    using step by blast
  from window ids counter silent cached cnt grows show ?thesis
    by (intro conjI) assumption+
qed

theorem onFrameReceived_witness:
  "''b'' \<in> set (clientIds (m_clientModel exampleBridge)) \<and>
   ''a'' \<in> set (clientIds (m_clientModel exampleBridge)) \<and>
   m_activeClientId exampleBridge = ''a'' \<and>
   framesInWindow (entryFor (m_clientModel (onFrameReceived exampleBridge ''b'' () 1000 0)) ''b'')
     = 1 \<and>
   windowStartMs (entryFor (m_clientModel (onFrameReceived exampleBridge ''b'' () 1000 0)) ''b'')
     = 1000 \<and>
   lastFrameTsMs (entryFor (m_clientModel (onFrameReceived exampleBridge ''b'' () 1000 0)) ''b'')
     = 1000 \<and>
   framesInWindow (entryFor (m_clientModel (onFrameReceived exampleBridge ''a'' () 0 1000)) ''a'')
     = 1 \<and>
   m_frameId (onFrameReceived exampleBridge ''b'' () 1000 0) = 0 \<and>
   m_frameId (onFrameReceived exampleBridge ''a'' () 0 1000) = 1 \<and>
   m_lastFrame (onFrameReceived exampleBridge ''b'' () 1000 0) = None \<and>
   m_lastFrame (onFrameReceived exampleBridge ''a'' () 0 1000) = Some ()"
proof -
  have hb: "''b'' \<in> set (clientIds (m_clientModel exampleBridge))"
    and ha: "''a'' \<in> set (clientIds (m_clientModel exampleBridge))"
    by (simp_all add: exampleBridge_value clientIds_def)
  have act: "m_activeClientId exampleBridge = ''a''" "m_frameId exampleBridge = 0"
    "m_lastFrame exampleBridge = None"
    by (simp_all add: exampleBridge_value)
  have eb: "windowStartMs (entryFor (m_clientModel exampleBridge) ''b'') = 0"
    and ea: "windowStartMs (entryFor (m_clientModel exampleBridge) ''a'') = 0"
    by (simp_all add: exampleBridge_value entryFor_def firstPos_def)
  show ?thesis
    using onFrameReceived_measures_and_forwards [OF hb, of "()" 1000 0]
      onFrameReceived_measures_and_forwards [OF ha, of "()" 0 1000] ha hb act eb ea
    by (simp add: effectiveTs_def Let_def)
qed

section \<open>Activating a session that is not in the registry\<close>







section \<open>The Active-Client Reference under admissions and removals\<close>

text \<open>The model's operations on the id-and-status view of the registry.\<close>

lemma clientIds_idStatus: "clientIds m = map fst (idStatus m)"
  by (simp add: clientIds_def idStatus_def comp_def)

lemma activeIds_idStatus: "activeIds m = activeOf (idStatus m)"
  by (simp add: activeIds_def activeOf_def idStatus_def filter_map comp_def)

lemma idStatus_Nil: "(idStatus m = []) = (m_clients m = [])"
  by (simp add: idStatus_def)

lemma idStatus_addClient:
  "idStatus (addClient m cid st) =
     (if cid \<in> set (map fst (idStatus m)) then idStatus m else idStatus m @ [(cid, st)])"
  by (simp add: addClient_def indexOfClient_absent clientIds_idStatus Let_def idStatus_def
      newClientEntry_def)

lemma removeAt_firstPos:
  "distinct (map id_e es) \<Longrightarrow> cid \<in> set (map id_e es) \<Longrightarrow>
     removeAt es (firstPos es cid) = filter (\<lambda>e. id_e e \<noteq> cid) es"
proof (induction es)
  case Nil
  then show ?case by simp
next
  case (Cons e es)
  show ?case
  proof (cases "id_e e = cid")
    case True
    with Cons.prems have "cid \<notin> id_e ` set es" by simp
    then have "\<forall>x \<in> set es. id_e x \<noteq> cid" by blast
    then have "filter (\<lambda>e. id_e e \<noteq> cid) es = es" by (simp add: filter_id_conv)
    with True show ?thesis by (simp add: removeAt_def firstPos_def)
  next
    case False
    with Cons show ?thesis by (simp add: removeAt_def firstPos_def)
  qed
qed

lemma idStatus_removeClient:
  assumes "distinct (map fst (idStatus m))"
  shows "idStatus (removeClient m cid) = filter (\<lambda>p. fst p \<noteq> cid) (idStatus m)"
proof (cases "cid \<in> set (clientIds m)")
  case True
  have d: "distinct (map id_e (m_clients m))"
    using assms by (simp add: idStatus_def comp_def)
  from True have "m_clients (removeClient m cid) = filter (\<lambda>e. id_e e \<noteq> cid) (m_clients m)"
    using removeAt_firstPos [OF d, of cid]
    by (simp add: removeClient_def indexOfClient_eq Let_def clientIds_def)
  then show ?thesis by (simp add: idStatus_def filter_map comp_def)
next
  case False
  then have "\<forall>p \<in> set (idStatus m). fst p \<noteq> cid"
    by (auto simp: clientIds_def idStatus_def)
  then have "filter (\<lambda>p. fst p \<noteq> cid) (idStatus m) = idStatus m" by (simp add: filter_id_conv)
  with False show ?thesis by (simp add: removeClient_def indexOfClient_eq)
qed

lemma update_firstPos_status:
  "distinct (map id_e es) \<Longrightarrow> cid \<in> set (map id_e es) \<Longrightarrow>
     map (\<lambda>e. (id_e e, status e)) (es[firstPos es cid := (es ! firstPos es cid)\<lparr>status := st\<rparr>]) =
     withStatus cid st (map (\<lambda>e. (id_e e, status e)) es)"
proof (induction es)
  case Nil
  then show ?case by simp
next
  case (Cons e es)
  show ?case
  proof (cases "id_e e = cid")
    case True
    with Cons.prems have "cid \<notin> id_e ` set es" by simp
    then have "\<forall>x \<in> set es. id_e x \<noteq> cid" by blast
    then have "withStatus cid st (map (\<lambda>e. (id_e e, status e)) es) = map (\<lambda>e. (id_e e, status e)) es"
      by (induction es) (simp_all add: withStatus_def)
    with True show ?thesis by (simp add: firstPos_def withStatus_def)
  next
    case False
    with Cons show ?thesis by (simp add: firstPos_def withStatus_def)
  qed
qed

lemma withStatus_absent: "cid \<notin> set (map fst ps) \<Longrightarrow> withStatus cid st ps = ps"
  by (induction ps) (auto simp: withStatus_def)

lemma withStatus_same:
  "distinct (map fst ps) \<Longrightarrow> (cid, st) \<in> set ps \<Longrightarrow> withStatus cid st ps = ps"
proof (induction ps)
  case Nil
  then show ?case by simp
next
  case (Cons p ps)
  show ?case
  proof (cases "p = (cid, st)")
    case True
    with Cons.prems have "cid \<notin> set (map fst ps)" by simp
    then have "withStatus cid st ps = ps" by (rule withStatus_absent)
    with True show ?thesis by (simp add: withStatus_def)
  next
    case False
    with Cons.prems have in_tl: "(cid, st) \<in> set ps" by simp
    then have "cid \<in> set (map fst ps)" by force
    with Cons.prems have "fst p \<noteq> cid" by auto
    moreover have "withStatus cid st ps = ps" using Cons.IH Cons.prems in_tl by simp
    ultimately show ?thesis by (simp add: withStatus_def)
  qed
qed

lemma idStatus_setClientStatus:
  assumes "distinct (map fst (idStatus m))"
  shows "idStatus (setClientStatus m cid st) = withStatus cid st (idStatus m)"
proof (cases "cid \<in> set (clientIds m)")
  case True
  have d: "distinct (map id_e (m_clients m))"
    using assms by (simp add: idStatus_def comp_def)
  have c: "cid \<in> set (map id_e (m_clients m))" using True by (simp add: clientIds_def)
  let ?i = "firstPos (m_clients m) cid"
  have l: "?i < length (m_clients m)" using c by (rule firstPos_less)
  show ?thesis
  proof (cases "status (m_clients m ! ?i) = st")
    case same: True
    have "(cid, st) \<in> set (idStatus m)"
      using l same firstPos_id [OF c]
      by (force simp: idStatus_def in_set_conv_nth)
    then have "withStatus cid st (idStatus m) = idStatus m"
      using assms by (simp add: withStatus_same)
    with True same show ?thesis
      by (simp add: setClientStatus_def indexOfClient_eq Let_def)
  next
    case False
    with True show ?thesis
      using update_firstPos_status [OF d c, of st]
      by (simp add: setClientStatus_def indexOfClient_eq Let_def idStatus_def)
  qed
next
  case False
  then have "cid \<notin> set (map fst (idStatus m))" by (simp add: clientIds_idStatus)
  with False show ?thesis
    by (simp add: setClientStatus_def indexOfClient_eq withStatus_absent)
qed

lemma idStatus_setClientConfiguredFps:
  "idStatus (setClientConfiguredFps m cid fps) = idStatus m"
proof (cases "cid \<in> set (clientIds m)")
  case True
  then have "firstPos (m_clients m) cid < length (m_clients m)"
    by (simp add: clientIds_def firstPos_less)
  then show ?thesis
    by (simp add: setClientConfiguredFps_def indexOfClient_eq Let_def idStatus_def map_update
        list_update_same_conv)
next
  case False
  then show ?thesis by (simp add: setClientConfiguredFps_def indexOfClient_eq)
qed


lemma map_fst_withStatus: "map fst (withStatus cid st ps) = map fst ps"
  by (induction ps) (auto simp: withStatus_def)

lemma withStatus_Nil: "(withStatus cid st ps = []) = (ps = [])"
  by (simp add: withStatus_def)

lemma activeOf_demote:
  "activeOf (withStatus cid ''Connected'' ps) = filter (\<lambda>i. i \<noteq> cid) (activeOf ps)"
  by (induction ps) (auto simp: withStatus_def activeOf_def)

lemma activeOf_promote:
  "activeOf ps = [] \<Longrightarrow> distinct (map fst ps) \<Longrightarrow> cid \<in> set (map fst ps) \<Longrightarrow>
     activeOf (withStatus cid ''Active'' ps) = [cid]"
proof (induction ps)
  case Nil
  then show ?case by simp
next
  case (Cons p ps)
  from Cons.prems(1) have tl0: "activeOf ps = []" and hd0: "snd p \<noteq> ''Active''"
    by (auto simp: activeOf_def split: if_splits)
  show ?case
  proof (cases "fst p = cid")
    case True
    with Cons.prems have "cid \<notin> set (map fst ps)" by auto
    then have "withStatus cid ''Active'' ps = ps" by (rule withStatus_absent)
    with True tl0 show ?thesis by (simp add: withStatus_def activeOf_def)
  next
    case False
    with Cons.prems have "cid \<in> set (map fst ps)" by auto
    with Cons.IH tl0 Cons.prems have "activeOf (withStatus cid ''Active'' ps) = [cid]" by simp
    with False hd0 show ?thesis by (simp add: withStatus_def activeOf_def)
  qed
qed

lemma activeOf_remove:
  "activeOf (filter (\<lambda>p. fst p \<noteq> cid) ps) = filter (\<lambda>i. i \<noteq> cid) (activeOf ps)"
  by (induction ps) (auto simp: activeOf_def)

lemma activeOf_append_connected: "activeOf (ps @ [(cid, ''Connected'')]) = activeOf ps"
  by (simp add: activeOf_def)

text \<open>What the slots do to the id-and-status view and to the reference.\<close>

lemma setFps_view:
  "idStatus (m_clientModel (setFps env b fps)) = idStatus (m_clientModel b)"
  "m_activeClientId (setFps env b fps) = m_activeClientId b"
  by (simp_all add: setFps_def emit_def Let_def idStatus_setClientConfiguredFps)

lemma setState_view:
  "m_clientModel (setConnectionState b cs) = m_clientModel b"
  "m_activeClientId (setConnectionState b cs) = m_activeClientId b"
  "m_clientModel (setStatusMessage b msg) = m_clientModel b"
  "m_activeClientId (setStatusMessage b msg) = m_activeClientId b"
  "m_clientModel (emit b sigs) = m_clientModel b"
  "m_activeClientId (emit b sigs) = m_activeClientId b"
  by (simp_all add: setConnectionState_def setStatusMessage_def emit_def)

lemma setActiveClient_view:
  assumes "distinct (map fst (idStatus (m_clientModel b)))"
  shows "m_activeClientId (setActiveClient env b cid) = cid"
    and "idStatus (m_clientModel (setActiveClient env b cid)) =
          (if m_activeClientId b = cid then idStatus (m_clientModel b)
           else withStatus cid ''Active''
                  (if m_activeClientId b \<noteq> [] then
                     withStatus (m_activeClientId b) ''Connected'' (idStatus (m_clientModel b))
                   else idStatus (m_clientModel b)))"
proof -
  show "m_activeClientId (setActiveClient env b cid) = cid"
    by (simp add: setActiveClient_def Let_def setState_view setFps_view)
  have d1: "distinct (map fst (idStatus (setClientStatus (m_clientModel b) a ''Connected'')))" for a
    using assms by (simp add: idStatus_setClientStatus map_fst_withStatus)
  show "idStatus (m_clientModel (setActiveClient env b cid)) =
          (if m_activeClientId b = cid then idStatus (m_clientModel b)
           else withStatus cid ''Active''
                  (if m_activeClientId b \<noteq> [] then
                     withStatus (m_activeClientId b) ''Connected'' (idStatus (m_clientModel b))
                   else idStatus (m_clientModel b)))"
    using assms d1
    by (simp add: setActiveClient_def Let_def setState_view setFps_view idStatus_setClientStatus)
qed

lemma clientIdAt_0: "m_clients m \<noteq> [] \<Longrightarrow> clientIdAt m 0 = fst (hd (idStatus m))"
  by (cases "m_clients m") (simp_all add: clientIdAt_def idStatus_def)

lemma rowCount_0: "(rowCount m = 0) = (idStatus m = [])"
  by (simp add: rowCount_def idStatus_def)

lemma onClientConnected_view:
  fixes b :: "'img Bridge" and cid :: string
  assumes "distinct (map fst (idStatus (m_clientModel b)))"
  defines "ps1 \<equiv> (if cid \<in> set (map fst (idStatus (m_clientModel b))) then idStatus (m_clientModel b)
                   else idStatus (m_clientModel b) @ [(cid, ''Connected'')])"
  shows "m_activeClientId (onClientConnected env b cid) =
           (if m_activeClientId b = [] then cid else m_activeClientId b)"
    and "idStatus (m_clientModel (onClientConnected env b cid)) =
           (if m_activeClientId b = [] \<and> cid \<noteq> [] then withStatus cid ''Active'' ps1 else ps1)"
proof -
  define b1 where "b1 = b\<lparr>m_clientModel := addClient (m_clientModel b) cid ''Connected''\<rparr>"
  define b2 where "b2 = (if rowCount (m_clientModel b1) > 0 then
                  setStatusMessage (setConnectionState b1 ClientsConnected) ''Clients connected''
                else b1)"
  define b3 where "b3 = (if m_activeClientId b2 = [] then setActiveClient env b2 cid else b2)"
  have v2: "idStatus (m_clientModel b2) = ps1" "m_activeClientId b2 = m_activeClientId b"
    by (simp_all add: b2_def b1_def setState_view idStatus_addClient ps1_def)
  have d2: "distinct (map fst (idStatus (m_clientModel b2)))"
    unfolding v2 using assms(1) by (auto simp: ps1_def)
  have a3: "m_activeClientId b3 = (if m_activeClientId b = [] then cid else m_activeClientId b)"
    using setActiveClient_view(1) [OF d2, of env cid] v2(2) by (simp add: b3_def)
  have i3: "idStatus (m_clientModel b3) =
           (if m_activeClientId b = [] \<and> cid \<noteq> [] then withStatus cid ''Active'' ps1 else ps1)"
  proof (cases "m_activeClientId b = []")
    case True
    then have "b3 = setActiveClient env b2 cid" by (simp add: b3_def v2(2))
    then show ?thesis
      using setActiveClient_view(2) [OF d2, of env cid] v2 True by simp
  next
    case False
    then have "b3 = b2" by (simp add: b3_def v2(2))
    with False v2 show ?thesis by simp
  qed
  have fin: "onClientConnected env b cid =
      (let idx = indexOfClient (m_clientModel b3) cid
       in if m_configuredFps b3 > 0 \<and> m_activeClientId b3 = cid then
           setFps env b3 (m_configuredFps b3)
         else if idx \<ge> 0 then
           (let configured = configuredFpsAt (m_clientModel b3) idx
            in if configured > 0 \<and> m_activeClientId b3 = cid then setFps env b3 configured
               else b3)
         else b3)"
    unfolding onClientConnected_def b3_def b2_def b1_def Let_def by (rule refl)
  have keep: "m_activeClientId (onClientConnected env b cid) = m_activeClientId b3 \<and>
      idStatus (m_clientModel (onClientConnected env b cid)) = idStatus (m_clientModel b3)"
    unfolding fin by (simp add: Let_def setFps_view)
  show "m_activeClientId (onClientConnected env b cid) =
           (if m_activeClientId b = [] then cid else m_activeClientId b)"
    using keep a3 by simp
  show "idStatus (m_clientModel (onClientConnected env b cid)) =
           (if m_activeClientId b = [] \<and> cid \<noteq> [] then withStatus cid ''Active'' ps1 else ps1)"
    using keep i3 by simp
qed

lemma rowCount_idStatus: "rowCount m = int (length (idStatus m))"
  by (simp add: rowCount_def idStatus_def)

lemma onSessionDisconnected_view:
  fixes b :: "'img Bridge" and cid :: string
  assumes "distinct (map fst (idStatus (m_clientModel b)))"
  defines "ps1 \<equiv> filter (\<lambda>p. fst p \<noteq> cid) (idStatus (m_clientModel b))"
  defines "promote \<equiv> (\<lambda>a. withStatus (fst (hd ps1)) ''Active''
                            (if a \<noteq> [] then withStatus a ''Connected'' ps1 else ps1))"
  shows "m_activeClientId (onSessionDisconnected env b cid) =
           (if ps1 = [] then []
            else if m_activeClientId b = cid \<or> (m_activeClientId b = [] \<and> length ps1 = 1)
              then fst (hd ps1)
            else m_activeClientId b)"
    and "idStatus (m_clientModel (onSessionDisconnected env b cid)) =
           (if ps1 = [] then []
            else if m_activeClientId b = cid \<or> (m_activeClientId b = [] \<and> length ps1 = 1)
              then (if m_activeClientId b = fst (hd ps1) then ps1 else promote (m_activeClientId b))
            else ps1)"
proof -
  define idx where "idx = indexOfClient (m_clientModel b) cid"
  define al where "al = (if idx \<ge> 0 then aliasAt (m_clientModel b) idx else [])"
  define shown where "shown = (if al = [] then cid else al)"
  define b2 where "b2 = emit (b\<lparr>m_clientModel := removeClient (m_clientModel b) cid\<rparr>)
                 [EventOccurred ClientDisconnected
                    [(''clientId'', VString cid), (''alias'', VString shown)],
                  ClientDisconnectedWithAlias cid shown]"
  have v2: "idStatus (m_clientModel b2) = ps1" "m_activeClientId b2 = m_activeClientId b"
    using assms(1) by (simp_all add: b2_def setState_view idStatus_removeClient ps1_def)
  have d2: "distinct (map fst (idStatus (m_clientModel b2)))"
    unfolding v2 using assms(1) by (simp add: ps1_def distinct_map_filter)
  have rc: "(rowCount (m_clientModel b2) = 0) = (ps1 = [])"
    "(rowCount (m_clientModel b2) = 1) = (length ps1 = 1)"
    by (simp_all add: rowCount_idStatus v2)
  have at0: "clientIdAt (m_clientModel b2) 0 = fst (hd ps1)" if "ps1 \<noteq> []"
  proof -
    from that have "m_clients (m_clientModel b2) \<noteq> []"
      using v2(1) by (auto simp: idStatus_def)
    then show ?thesis using clientIdAt_0 [of "m_clientModel b2"] v2(1) by simp
  qed
  have unf: "onSessionDisconnected env b cid =
      (if rowCount (m_clientModel b2) = 0 then
           (let b3 = b2\<lparr>m_activeClientId := []\<rparr>;
                b4 = setStatusMessage (setConnectionState b3 NoClients) ''No clients available''
            in emit b4 [EventOccurred NoClientsAvailable [], ConnectionLost])
         else if m_activeClientId b2 = cid then
           setActiveClient env b2 (clientIdAt (m_clientModel b2) 0)
         else if m_activeClientId b2 = [] \<and> rowCount (m_clientModel b2) = 1 then
           setActiveClient env b2 (clientIdAt (m_clientModel b2) 0)
         else b2)"
    unfolding onSessionDisconnected_def b2_def shown_def al_def idx_def Let_def
    by (rule refl)
  show "m_activeClientId (onSessionDisconnected env b cid) =
           (if ps1 = [] then []
            else if m_activeClientId b = cid \<or> (m_activeClientId b = [] \<and> length ps1 = 1)
              then fst (hd ps1)
            else m_activeClientId b)"
  proof (cases "ps1 = []")
    case True
    then show ?thesis unfolding unf by (simp add: rc Let_def setState_view)
  next
    case False
    then show ?thesis
      unfolding unf using at0 [OF False] v2(2)
      by (simp add: rc setActiveClient_view(1) [OF d2])
  qed
  show "idStatus (m_clientModel (onSessionDisconnected env b cid)) =
           (if ps1 = [] then []
            else if m_activeClientId b = cid \<or> (m_activeClientId b = [] \<and> length ps1 = 1)
              then (if m_activeClientId b = fst (hd ps1) then ps1 else promote (m_activeClientId b))
            else ps1)"
  proof (cases "ps1 = []")
    case True
    then show ?thesis unfolding unf using v2(1) by (simp add: rc Let_def setState_view)
  next
    case False
    then show ?thesis
      unfolding unf using at0 [OF False] v2
      by (simp add: rc setActiveClient_view(2) [OF d2] promote_def)
  qed
qed

lemma arbitrationOk_admit:
  assumes ok: "arbitrationOk (idStatus (m_clientModel b)) (m_activeClientId b)"
    and cid: "cid \<noteq> []"
  shows "arbitrationOk (idStatus (m_clientModel (onClientConnected env b cid)))
           (m_activeClientId (onClientConnected env b cid))"
proof -
  let ?ps = "idStatus (m_clientModel b)"
  let ?a = "m_activeClientId b"
  have d: "distinct (map fst ?ps)" using ok by (simp add: arbitrationOk_def)
  note v = onClientConnected_view [OF d, of env cid]
  show ?thesis
  proof (cases "?a = []")
    case True
    with ok have empty: "?ps = []" by (simp add: arbitrationOk_def)
    have "withStatus cid ''Active'' [(cid, ''Connected'')] = [(cid, ''Active'')]"
      by (simp add: withStatus_def)
    with True empty cid show ?thesis
      by (simp add: v arbitrationOk_def activeOf_def)
  next
    case False
    with ok cid show ?thesis
      by (auto simp: v arbitrationOk_def activeOf_append_connected)
  qed
qed

lemma arbitrationOk_remove:
  assumes ok: "arbitrationOk (idStatus (m_clientModel b)) (m_activeClientId b)"
  shows "arbitrationOk (idStatus (m_clientModel (onSessionDisconnected env b cid)))
           (m_activeClientId (onSessionDisconnected env b cid))"
proof -
  let ?ps = "idStatus (m_clientModel b)"
  let ?a = "m_activeClientId b"
  let ?ps1 = "filter (\<lambda>p. fst p \<noteq> cid) ?ps"
  have d: "distinct (map fst ?ps)" using ok by (simp add: arbitrationOk_def)
  have d1: "distinct (map fst ?ps1)" using d by (simp add: distinct_map_filter)
  have ne1: "[] \<notin> set (map fst ?ps1)" using ok by (auto simp: arbitrationOk_def)
  have act1: "activeOf ?ps1 = filter (\<lambda>i. i \<noteq> cid) (if ?a = [] then [] else [?a])"
    using ok by (simp add: activeOf_remove arbitrationOk_def)
  note v = onSessionDisconnected_view [OF d, of env cid]
  show ?thesis
  proof (cases "?ps1 = []")
    case True
    then show ?thesis by (simp add: v arbitrationOk_def activeOf_def)
  next
    case ne: False
    then have psne: "?ps \<noteq> []" by auto
    with ok have a: "?a \<noteq> []" "?a \<in> set (map fst ?ps)" by (simp_all add: arbitrationOk_def)
    show ?thesis
    proof (cases "?a = cid")
      case True
      let ?n = "fst (hd ?ps1)"
      have "hd ?ps1 \<in> set ?ps1" using ne by (rule hd_in_set)
      then have n_in: "?n \<in> set (map fst ?ps1)" by (simp only: set_map) (rule imageI)
      then have n_cid: "?n \<noteq> cid" by auto
      have n_ne: "?n \<noteq> []" using n_in ne1 by metis
      have "cid \<notin> set (map fst ?ps1)" by auto
      then have dem: "withStatus cid ''Connected'' ?ps1 = ?ps1" by (rule withStatus_absent)
      have "activeOf ?ps1 = []" using act1 True by simp
      then have pro: "activeOf (withStatus ?n ''Active'' ?ps1) = [?n]"
        using d1 n_in by (rule activeOf_promote)
      show ?thesis
        using True ne a n_cid n_ne dem pro d1 ne1 n_in
        by (simp add: v arbitrationOk_def map_fst_withStatus withStatus_Nil)
    next
      case False
      then have "?a \<in> set (map fst ?ps1)" using a by auto
      with False ne a d1 ne1 act1 show ?thesis
        by (simp add: v arbitrationOk_def)
    qed
  qed
qed

lemma arbitrationOk_newBridge:
  "arbitrationOk (idStatus (m_clientModel (newBridge fps0))) (m_activeClientId (newBridge fps0))"
  by (simp add: newBridge_def emptyModel_def idStatus_def arbitrationOk_def activeOf_def)

lemma arbitrationOk_run:
  assumes "arbitrationOk (idStatus (m_clientModel b)) (m_activeClientId b)"
    and "\<forall>env cid. Admit env cid \<in> set ops \<longrightarrow> cid \<noteq> []"
  shows "arbitrationOk (idStatus (m_clientModel (foldl applyRegistryOp b ops)))
           (m_activeClientId (foldl applyRegistryOp b ops))"
  using assms
proof (induction ops arbitrary: b)
  case Nil
  then show ?case by simp
next
  case (Cons op ops)
  have "arbitrationOk (idStatus (m_clientModel (applyRegistryOp b op)))
          (m_activeClientId (applyRegistryOp b op))"
  proof (cases op)
    case (Admit env cid)
    with Cons.prems(2) have "cid \<noteq> []" by auto
    with Cons.prems(1) Admit show ?thesis by (simp add: arbitrationOk_admit)
  next
    case (Remove env cid)
    with Cons.prems(1) show ?thesis by (simp add: arbitrationOk_remove)
  qed
  moreover have "\<forall>env cid. Admit env cid \<in> set ops \<longrightarrow> cid \<noteq> []"
    using Cons.prems(2) by auto
  ultimately show ?case using Cons.IH by simp
qed

lemma entryFor_unique:
  "distinct (map id_e es) \<Longrightarrow> e \<in> set es \<Longrightarrow> es ! firstPos es (id_e e) = e"
proof (induction es)
  case Nil
  then show ?case by simp
next
  case (Cons x es)
  show ?case
  proof (cases "id_e x = id_e e")
    case True
    with Cons.prems have "x = e" by (auto simp: image_iff)
    then show ?thesis by (simp add: firstPos_def)
  next
    case False
    with Cons show ?thesis by (auto simp: firstPos_def)
  qed
qed

lemma arbitrationOk_invariant:
  assumes "arbitrationOk (idStatus (m_clientModel b)) (m_activeClientId b)"
  shows "registryInvariant b"
proof -
  let ?m = "m_clientModel b"
  let ?a = "m_activeClientId b"
  have d: "distinct (map id_e (m_clients ?m))"
    using assms by (simp add: arbitrationOk_def idStatus_def comp_def)
  have ne: "(?a \<noteq> []) = (m_clients ?m \<noteq> [])"
    using assms by (simp add: arbitrationOk_def idStatus_def)
  have act: "activeIds ?m = (if ?a = [] then [] else [?a])"
    using assms by (simp add: arbitrationOk_def activeIds_idStatus)
  have "?a \<in> set (clientIds ?m) \<and> status (entryFor ?m ?a) = ''Active''" if "?a \<noteq> []"
  proof -
    from that act have "?a \<in> set (activeIds ?m)" by simp
    then obtain e where e: "e \<in> set (m_clients ?m)" "status e = ''Active''" "id_e e = ?a"
      by (auto simp: activeIds_def)
    from e have "?a \<in> set (clientIds ?m)" by (force simp: clientIds_def)
    moreover from entryFor_unique [OF d e(1)] e have "status (entryFor ?m ?a) = ''Active''"
      by (simp add: entryFor_def)
    ultimately show ?thesis by simp
  qed
  with ne act show ?thesis by (simp add: registryInvariant_def)
qed

text \<open>
  C1. Start from the bridge as constructed (empty registry, empty reference) and run any
  sequence of \<open>onClientConnected\<close> and \<open>onSessionDisconnected\<close> calls, each in any
  surroundings, in which the admitted ids are non-empty strings (session ids are
  \<open>QUuid::createUuid().toString()\<close>; the empty string is how the code writes "no active
  client"). Then the Active-Client Reference is non-empty exactly when the registry is,
  names a row of the registry with status "Active" when it is non-empty, and the rows with
  status "Active" are exactly that row (none when the reference is empty).
\<close>

theorem active_reference_invariant:
  assumes "\<forall>env cid. Admit env cid \<in> set ops \<longrightarrow> cid \<noteq> []"
  shows "registryInvariant (foldl applyRegistryOp (newBridge fps0) ops)"
  by (rule arbitrationOk_invariant) (rule arbitrationOk_run [OF arbitrationOk_newBridge assms])

theorem active_reference_invariant_witness:
  "''a'' \<noteq> [] \<and> ''b'' \<noteq> [] \<and>
   registryInvariant (foldl applyRegistryOp (newBridge 30 :: unit Bridge)
     [Admit (liveSessions [''a'']) ''a'', Admit (liveSessions [''a'', ''b'']) ''b'',
      Remove (liveSessions [''b'']) ''a'']) \<and>
   m_activeClientId (foldl applyRegistryOp (newBridge 30 :: unit Bridge)
     [Admit (liveSessions [''a'']) ''a'', Admit (liveSessions [''a'', ''b'']) ''b'',
      Remove (liveSessions [''b'']) ''a'']) = ''b''"
proof -
  let ?ops = "[Admit (liveSessions [''a'']) ''a'', Admit (liveSessions [''a'', ''b'']) ''b'',
      Remove (liveSessions [''b'']) ''a'']"
  have h: "\<forall>env cid. Admit env cid \<in> set ?ops \<longrightarrow> cid \<noteq> []" by auto
  have "m_activeClientId (foldl applyRegistryOp (newBridge 30 :: unit Bridge) ?ops) = ''b''"
    by (simp add: bridge_defs Let_def)
  with active_reference_invariant [OF h, of 30] show ?thesis by simp
qed

text \<open>
  The hypothesis on the ids is needed: admitting the empty string adds a row and leaves
  the reference empty, because \<open>setActiveClient("")\<close> finds the reference already equal.
\<close>

lemma empty_id_is_no_session_id:
  "\<not> registryInvariant (onClientConnected (liveSessions []) (newBridge 30 :: unit Bridge) [])"
  by (simp add: registryInvariant_def bridge_defs Let_def)

section \<open>Teardown, connecting, and the reconnect loop\<close>

lemma count_list_append:
  "count_list (xs @ ys) x = count_list xs x + count_list ys x"
  by (induction xs) simp_all

lemma notify_fields:
  "ioc (notifyAndReconnect s) = ioc s" "ioThread (notifyAndReconnect s) = ioThread s"
  "ws (notifyAndReconnect s) = ws s" "running (notifyAndReconnect s) = running s"
  "reconnecting (notifyAndReconnect s)"
  "m_onDisconnected (notifyAndReconnect s) = m_onDisconnected s"
  "m_onConnected (notifyAndReconnect s) = m_onConnected s"
  by (simp_all add: notifyAndReconnect_def did_def Let_def)

lemma notify_actions:
  "actions (notifyAndReconnect s) =
     actions s @ (if m_onDisconnected s then [DisconnectedQueued] else [])
              @ (if reconnecting s then [] else [ReconnectLoopStarted])"
  by (simp add: notifyAndReconnect_def did_def Let_def)

lemma reset_fields:
  "ioc (resetResources s) = False" "ioThread (resetResources s) = ioThread s"
  "ws (resetResources s) = None" "running (resetResources s) = running s"
  "reconnecting (resetResources s) = reconnecting s"
  "m_onDisconnected (resetResources s) = m_onDisconnected s"
  "m_onConnected (resetResources s) = m_onConnected s"
  by (simp_all add: resetResources_def did_def Let_def)

lemma reset_actions:
  "actions (resetResources s) =
     actions s @ (if ws s \<noteq> None then [WsFreed] else []) @ (if ioc s then [IocFreed] else [])"
  by (simp add: resetResources_def did_def Let_def)

text \<open>One call of \<open>cleanupConnection\<close>: the state it leaves and what it adds to the record.\<close>

lemma cleanup_fields:
  "running (cleanupConnection ctx s) = False"
  "reconnecting (cleanupConnection ctx s)"
  "m_onDisconnected (cleanupConnection ctx s) = m_onDisconnected s"
  "m_onConnected (cleanupConnection ctx s) = m_onConnected s"
  "ioThread (cleanupConnection ctx s) = (ioThread s \<and> ctx = IoContext)"
  "ioc (cleanupConnection ctx s) = (ioc s \<and> ioThread s \<and> ctx = IoContext)"
  "(ws (cleanupConnection ctx s) \<noteq> None) = (ws s \<noteq> None \<and> ioThread s \<and> ctx = IoContext)"
  by (auto simp: cleanupConnection_def Let_def notify_fields reset_fields did_def)

lemma cleanup_counts:
  "count_list (actions (cleanupConnection ctx s)) WsFreed =
     count_list (actions s) WsFreed +
     (if ws s \<noteq> None \<and> \<not> (ioThread s \<and> ctx = IoContext) then 1 else 0)"
  "count_list (actions (cleanupConnection ctx s)) IocFreed =
     count_list (actions s) IocFreed +
     (if ioc s \<and> \<not> (ioThread s \<and> ctx = IoContext) then 1 else 0)"
  "count_list (actions (cleanupConnection ctx s)) DisconnectedQueued =
     count_list (actions s) DisconnectedQueued + (if m_onDisconnected s then 1 else 0)"
  "count_list (actions (cleanupConnection ctx s)) ReconnectLoopStarted =
     count_list (actions s) ReconnectLoopStarted + (if reconnecting s then 0 else 1)"
  "count_list (actions (cleanupConnection ctx s)) ReconnectLoopExited =
     count_list (actions s) ReconnectLoopExited"
  by (auto simp: cleanupConnection_def Let_def notify_actions notify_fields reset_actions
      reset_fields did_def count_list_append)

lemma loopExit_fields:
  "running (reconnectLoopExits s) = running s"
  "reconnecting (reconnectLoopExits s) = False"
  "m_onDisconnected (reconnectLoopExits s) = m_onDisconnected s"
  "m_onConnected (reconnectLoopExits s) = m_onConnected s"
  "ioThread (reconnectLoopExits s) = ioThread s"
  "ioc (reconnectLoopExits s) = ioc s"
  "ws (reconnectLoopExits s) = ws s"
  by (simp_all add: reconnectLoopExits_def did_def)

lemma loopExit_counts:
  "count_list (actions (reconnectLoopExits s)) WsFreed = count_list (actions s) WsFreed"
  "count_list (actions (reconnectLoopExits s)) IocFreed = count_list (actions s) IocFreed"
  "count_list (actions (reconnectLoopExits s)) DisconnectedQueued =
     count_list (actions s) DisconnectedQueued"
  "count_list (actions (reconnectLoopExits s)) ReconnectLoopStarted =
     count_list (actions s) ReconnectLoopStarted"
  "count_list (actions (reconnectLoopExits s)) ReconnectLoopExited =
     count_list (actions s) ReconnectLoopExited + (if reconnecting s then 1 else 0)"
  by (simp_all add: reconnectLoopExits_def did_def count_list_append)


lemma run_callback:
  "m_onDisconnected (foldl teardownStep s steps) = m_onDisconnected s"
proof (induction steps arbitrary: s)
  case Nil
  show ?case by simp
next
  case (Cons st steps)
  show ?case by (cases st) (simp_all add: Cons.IH cleanup_fields loopExit_fields)
qed







text \<open>
  C8, as stated, fails in its last part. On a freshly constructed client, a call of
  \<open>connectToServer\<close> whose handshake times out returns false, and the call has started a
  reconnect loop: its first statement after the \<open>running\<close> test is \<open>cleanupConnection()\<close>,
  which starts the loop because the \<open>reconnecting\<close> flag is clear. That loop thread finds
  \<open>running\<close> set and ends during the 5 second wait, so the teardown after the timeout
  finds the flag clear again and starts a second loop. Were the first loop still asleep
  at that point, the call would still have started that one.
\<close>

theorem failed_connect_starts_reconnect_loop:
  "snd (connectToServer (newImpl False False) HandshakeTimeout True) = False \<and>
   actions (fst (connectToServer (newImpl False False) HandshakeTimeout True)) =
     [ReconnectLoopStarted, ReconnectLoopExited, IoThreadStarted, IocStopped, IoThreadJoined,
      WsFreed, IocFreed, ReconnectLoopStarted] \<and>
   snd (connectToServer (newImpl False False) HandshakeTimeout False) = False \<and>
   actions (fst (connectToServer (newImpl False False) HandshakeTimeout False)) =
     [ReconnectLoopStarted, IoThreadStarted, IocStopped, IoThreadJoined, WsFreed, IocFreed]"
  by code_simp

text \<open>
  C8, amended. If the client is running, \<open>connectToServer\<close> returns true and changes
  nothing. Otherwise, when the handshake times out or fails, it returns false with the
  connection torn down (not running, stream and \<open>io_context\<close> released, I/O thread
  joined) and the \<open>reconnecting\<close> flag set. The call starts a reconnect loop each time one
  of its two teardowns finds the flag clear: one on entry if the flag was clear then, and
  one after the failed handshake if a reconnect-loop thread has ended in between. It
  starts none only if the flag was set on entry and no loop thread ended meanwhile, as
  when the reconnect loop itself makes the call.
\<close>

theorem connectToServer_semantics:
  "(running s \<longrightarrow> connectToServer s attempt loopExits = (s, True)) \<and>
   (\<not> running s \<and> (attempt = HandshakeTimeout \<or> attempt = HandshakeFails) \<longrightarrow>
      snd (connectToServer s attempt loopExits) = False \<and>
      running (fst (connectToServer s attempt loopExits)) = False \<and>
      ws (fst (connectToServer s attempt loopExits)) = None \<and>
      ioc (fst (connectToServer s attempt loopExits)) = False \<and>
      ioThread (fst (connectToServer s attempt loopExits)) = False \<and>
      reconnecting (fst (connectToServer s attempt loopExits)) \<and>
      count_list (actions (fst (connectToServer s attempt loopExits))) ReconnectLoopStarted =
        count_list (actions s) ReconnectLoopStarted +
        (if reconnecting s then 0 else 1) + (if loopExits then 1 else 0))"
proof -
  define s2 where "s2 = (cleanupConnection OtherContext s)\<lparr>running := True, ioc := True\<rparr>"
  define s3 where "s3 = (if loopExits then reconnectLoopExits s2 else s2)"
  define s4 where "s4 = did (s3\<lparr>ws := Some False, ioThread := True\<rparr>) [IoThreadStarted]"
  have r2: "reconnecting s2" by (simp add: s2_def cleanup_fields)
  have c2: "count_list (actions s2) ReconnectLoopStarted =
      count_list (actions s) ReconnectLoopStarted + (if reconnecting s then 0 else 1)"
    by (simp add: s2_def cleanup_counts)
  have r3: "reconnecting s3 = (\<not> loopExits)"
    using r2 by (simp add: s3_def loopExit_fields)
  have c3: "count_list (actions s3) ReconnectLoopStarted =
      count_list (actions s) ReconnectLoopStarted + (if reconnecting s then 0 else 1)"
    using c2 by (simp add: s3_def loopExit_counts)
  have r4: "reconnecting s4 = (\<not> loopExits)" using r3 by (simp add: s4_def did_def)
  have c4: "count_list (actions s4) ReconnectLoopStarted =
      count_list (actions s) ReconnectLoopStarted + (if reconnecting s then 0 else 1)"
    using c3 by (simp add: s4_def did_def count_list_append)
  have c5: "count_list (actions (cleanupConnection OtherContext s4)) ReconnectLoopStarted =
      count_list (actions s) ReconnectLoopStarted +
      (if reconnecting s then 0 else 1) + (if loopExits then 1 else 0)"
    using r4 c4 by (simp add: cleanup_counts)
  have fail: "connectToServer s attempt loopExits = (cleanupConnection OtherContext s4, False)"
    if "\<not> running s" "attempt = HandshakeTimeout \<or> attempt = HandshakeFails"
    using that by (auto simp: connectToServer_def Let_def s4_def s3_def s2_def)
  show ?thesis
  proof (intro conjI impI)
    show "connectToServer s attempt loopExits = (s, True)" if "running s"
      using that by (simp add: connectToServer_def)
  next
    assume a: "\<not> running s \<and> (attempt = HandshakeTimeout \<or> attempt = HandshakeFails)"
    then have f: "connectToServer s attempt loopExits = (cleanupConnection OtherContext s4, False)"
      using fail by blast
    show "snd (connectToServer s attempt loopExits) = False" by (simp add: f)
    show "running (fst (connectToServer s attempt loopExits)) = False"
      by (simp add: f cleanup_fields)
    show "ws (fst (connectToServer s attempt loopExits)) = None"
      using cleanup_fields(7) [of OtherContext s4] by (simp add: f)
    show "ioc (fst (connectToServer s attempt loopExits)) = False"
      by (simp add: f cleanup_fields)
    show "ioThread (fst (connectToServer s attempt loopExits)) = False"
      by (simp add: f cleanup_fields)
    show "reconnecting (fst (connectToServer s attempt loopExits))"
      by (simp add: f cleanup_fields)
    show "count_list (actions (fst (connectToServer s attempt loopExits))) ReconnectLoopStarted =
        count_list (actions s) ReconnectLoopStarted +
        (if reconnecting s then 0 else 1) + (if loopExits then 1 else 0)"
      using c5 by (simp add: f)
  qed
qed

theorem connectToServer_semantics_witness:
  "running ((newImpl False False)\<lparr>running := True\<rparr>) \<and>
   connectToServer ((newImpl False False)\<lparr>running := True\<rparr>) HandshakeTimeout True =
     ((newImpl False False)\<lparr>running := True\<rparr>, True) \<and>
   \<not> running ((newImpl False False)\<lparr>reconnecting := True\<rparr>) \<and>
   snd (connectToServer ((newImpl False False)\<lparr>reconnecting := True\<rparr>) HandshakeFails False)
     = False \<and>
   count_list (actions (fst (connectToServer ((newImpl False False)\<lparr>reconnecting := True\<rparr>)
     HandshakeFails False))) ReconnectLoopStarted = 0 \<and>
   \<not> running (newImpl False False) \<and>
   count_list (actions (fst (connectToServer (newImpl False False) HandshakeFails False)))
     ReconnectLoopStarted = 1 \<and>
   count_list (actions (fst (connectToServer (newImpl False False) HandshakeTimeout True)))
     ReconnectLoopStarted = 2"
  using connectToServer_semantics
      [of "(newImpl False False)\<lparr>running := True\<rparr>" HandshakeTimeout True]
    connectToServer_semantics
      [of "(newImpl False False)\<lparr>reconnecting := True\<rparr>" HandshakeFails False]
    connectToServer_semantics [of "newImpl False False" HandshakeFails False]
    connectToServer_semantics [of "newImpl False False" HandshakeTimeout True]
  by (simp add: newImpl_def)





end
